theory Spec2Isabelle
  imports Main
begin

section \<open>Transaction service: the ledger tables\<close>

text \<open>
  The transaction service keeps three tables: \<open>transactions\<close> (the ledger entries),
  \<open>account_balances\<close> (one row per account, keyed by the account id) and
  \<open>account_ownership\<close> (pairs of account id and user id). Amounts are the two-decimal
  values the request schema lets through (\<open>Joi.number().positive().precision(2)\<close>),
  counted here in hundredths, so \<open>100.00\<close> is \<open>10000\<close>. Identifiers produced by
  \<open>uuidv4()\<close> are arguments of the handlers.

  A statement that the database refuses makes the handler's \<open>catch\<close> branch run:
  \<open>ROLLBACK\<close>, then status 500. The refusals modelled are those that follow from the
  request and the tables of \<open>database/init.sql\<close>: a value outside the range of an
  \<open>INTEGER\<close> column, of a \<open>DECIMAL(15,2)\<close> column or of \<open>VARCHAR(100)\<close>, a text with a
  NUL character in it, and a second row with the same primary key. The \<open>created_at\<close> and \<open>updated_at\<close> stamps of this service
  and the events published after \<open>COMMIT\<close> are not modelled.
\<close>

type_synonym account_id = int
type_synonym user_id = int
type_synonym money = int
type_synonym uuid = string
type_synonym time = int

text \<open>
  \<open>INTEGER\<close> holds 32 bits; \<open>DECIMAL(15,2)\<close> holds thirteen digits before the point,
  that is fewer than \<open>10^15\<close> hundredths in absolute value. \<open>Joi.number()\<close> refuses a
  number beyond \<open>Number.MAX_SAFE_INTEGER\<close>, which is \<open>2^53 - 1\<close>; for an amount that
  is \<open>(2^53 - 1) * 100\<close> hundredths.
\<close>

definition int4 :: "int \<Rightarrow> bool" where
  "int4 v \<longleftrightarrow> - 2147483648 \<le> v \<and> v \<le> 2147483647"

definition numeric_15_2 :: "money \<Rightarrow> bool" where
  "numeric_15_2 v \<longleftrightarrow> - 1000000000000000 < v \<and> v < 1000000000000000"

definition safe_integer :: "int \<Rightarrow> bool" where
  "safe_integer v \<longleftrightarrow> - 9007199254740991 \<le> v \<and> v \<le> 9007199254740991"

definition safe_amount :: "money \<Rightarrow> bool" where
  "safe_amount v \<longleftrightarrow> - 900719925474099100 \<le> v \<and> v \<le> 900719925474099100"

text \<open>
  The request schemas let any non-empty string of the permitted length through; the
  database refuses a text value that contains the character with code 0.
\<close>

definition no_nul :: "string \<Rightarrow> bool" where
  "no_nul x \<longleftrightarrow> CHR 0x00 \<notin> set x"

datatype transaction_type = debit | credit

record transaction_row =
  tx_id :: uuid
  tx_account_id :: account_id
  tx_transaction_type :: transaction_type
  tx_amount :: money
  tx_description :: string
  tx_reference_id :: "uuid option"
  tx_status :: string

record ledger =
  transactions :: "transaction_row list"
  account_balances :: "account_id \<rightharpoonup> money"
  account_ownership :: "(account_id \<times> user_id) set"

text \<open>
  The responses other than success that the handlers of the two services send:
  \<^item> \<open>ValidationFailed\<close>: 400 with the schema's message;
  \<^item> \<open>AccountAccessDenied\<close>: 403 \<open>Account access denied\<close>;
  \<^item> \<open>SourceAccountAccessDenied\<close>: 403 \<open>Source account access denied\<close>;
  \<^item> \<open>AccountNotFound\<close>: 400 \<open>Account not found\<close>;
  \<^item> \<open>InsufficientFunds\<close>: 400 \<open>Insufficient funds\<close>;
  \<^item> \<open>BalanceVerificationFailed\<close>: 400 \<open>Balance verification failed\<close>;
  \<^item> \<open>TransactionFailed\<close>: 500 \<open>Transaction failed\<close>;
  \<^item> \<open>TransferFailed\<close>: 500 \<open>Transfer failed\<close>;
  \<^item> \<open>PaymentCreationFailed\<close>: 500 \<open>Payment creation failed\<close>;
  \<^item> \<open>PaymentNotFoundOrCannotBeCancelled\<close>: 404
    \<open>Payment not found or cannot be cancelled\<close>;
  \<^item> \<open>FailedToCancelPayment\<close>: 500 \<open>Failed to cancel payment\<close>.
\<close>

datatype error =
    ValidationFailed
  | AccountAccessDenied
  | SourceAccountAccessDenied
  | AccountNotFound
  | InsufficientFunds
  | BalanceVerificationFailed
  | TransactionFailed
  | TransferFailed
  | PaymentCreationFailed
  | PaymentNotFoundOrCannotBeCancelled
  | FailedToCancelPayment

subsection \<open>The ownership query\<close>

text \<open>
  \<open>SELECT user_id FROM account_ownership WHERE account_id = $1 AND user_id = $2\<close>.
  The result is the number of rows, and \<open>None\<close> when the statement throws. Both columns
  are \<open>INTEGER\<close>: a pair that is in the table lies within the range, and a parameter
  outside the range matches no row and makes the statement fail.
\<close>

definition select_ownership ::
  "(account_id \<times> user_id) set \<Rightarrow> account_id \<Rightarrow> user_id \<Rightarrow> nat option" where
  "select_ownership own accountId userId =
     (if (accountId, userId) \<in> own then Some 1
      else if int4 accountId \<and> int4 userId then Some 0
      else None)"

subsection \<open>verifyAccountBalance\<close>

text \<open>
  \<open>{ valid: false, error }\<close> is \<open>Invalid error\<close>, \<open>{ valid: true, currentBalance }\<close> is
  \<open>Valid currentBalance\<close>. The function reads the committed \<open>account_balances\<close> row.
  Its key is \<open>INTEGER\<close>: for an account id outside the range no row exists and the
  \<open>SELECT\<close> throws, which the function's own \<open>catch\<close> turns into
  \<open>Balance verification failed\<close>.
\<close>

datatype balance_check = Invalid error | Valid money

definition verifyAccountBalance ::
  "ledger \<Rightarrow> account_id \<Rightarrow> money \<Rightarrow> transaction_type \<Rightarrow> balance_check" where
  "verifyAccountBalance s accountId amount type =
     (case account_balances s accountId of
        None \<Rightarrow>
          if int4 accountId then Invalid AccountNotFound
          else Invalid BalanceVerificationFailed
      | Some currentBalance \<Rightarrow>
          if type = debit \<and> currentBalance < amount then Invalid InsufficientFunds
          else Valid currentBalance)"

subsection \<open>The statements that write\<close>

text \<open>
  \<open>INSERT INTO transactions ...\<close>: refused (\<open>None\<close>) when the id is already a key of the
  table, when the account id is outside \<open>INTEGER\<close>, when the amount is outside
  \<open>DECIMAL(15,2)\<close>, when the reference id is longer than \<open>VARCHAR(100)\<close>, or when the
  description or the reference id contains a NUL character.
\<close>

definition insert_transaction ::
  "transaction_row list \<Rightarrow> transaction_row \<Rightarrow> transaction_row list option" where
  "insert_transaction rows t =
     (if tx_id t \<notin> tx_id ` set rows \<and> int4 (tx_account_id t) \<and> numeric_15_2 (tx_amount t) \<and>
         no_nul (tx_description t) \<and>
         (case tx_reference_id t of None \<Rightarrow> True | Some x \<Rightarrow> length x \<le> 100 \<and> no_nul x)
      then Some (rows @ [t]) else None)"

text \<open>
  \<open>INSERT INTO account_balances (account_id, balance) VALUES ($1, $2)
  ON CONFLICT (account_id) DO UPDATE SET balance = account_balances.balance + $2\<close>
  and the same statement with \<open>- $2\<close>: a missing row is created with the value \<open>$2\<close>
  itself, an existing row is changed by it. The statement is refused when the account
  id is outside \<open>INTEGER\<close> or when \<open>$2\<close> or the new balance is outside \<open>DECIMAL(15,2)\<close>.
\<close>

definition upsert_plus ::
  "(account_id \<rightharpoonup> money) \<Rightarrow> account_id \<Rightarrow> money \<Rightarrow> (account_id \<rightharpoonup> money) option" where
  "upsert_plus m a v =
     (let balance = (case m a of None \<Rightarrow> v | Some b \<Rightarrow> b + v)
      in if int4 a \<and> numeric_15_2 v \<and> numeric_15_2 balance then Some (m(a \<mapsto> balance))
         else None)"

definition upsert_minus ::
  "(account_id \<rightharpoonup> money) \<Rightarrow> account_id \<Rightarrow> money \<Rightarrow> (account_id \<rightharpoonup> money) option" where
  "upsert_minus m a v =
     (let balance = (case m a of None \<Rightarrow> v | Some b \<Rightarrow> b - v)
      in if int4 a \<and> numeric_15_2 v \<and> numeric_15_2 balance then Some (m(a \<mapsto> balance))
         else None)"

subsection \<open>POST /: a single ledger entry\<close>

record transaction_request =
  rq_accountId :: account_id
  rq_amount :: money
  rq_type :: transaction_type
  rq_description :: string
  rq_referenceId :: "uuid option"

definition transactionSchema :: "transaction_request \<Rightarrow> bool" where
  "transactionSchema r \<longleftrightarrow>
     0 < rq_accountId r \<and> safe_integer (rq_accountId r) \<and>
     0 < rq_amount r \<and> safe_amount (rq_amount r) \<and>
     rq_description r \<noteq> [] \<and> length (rq_description r) \<le> 255 \<and>
     rq_referenceId r \<noteq> Some []"

text \<open>
  The reads of the handler, in the order of the source: schema, ownership, and for a
  debit the balance. \<open>None\<close> means that every check passed.
\<close>

definition transaction_checks :: "ledger \<Rightarrow> user_id \<Rightarrow> transaction_request \<Rightarrow> error option" where
  "transaction_checks s userId r =
     (if \<not> transactionSchema r then Some ValidationFailed
      else (case select_ownership (account_ownership s) (rq_accountId r) userId of
              None \<Rightarrow> Some TransactionFailed
            | Some n \<Rightarrow>
                if n = 0 then Some AccountAccessDenied
                else if rq_type r = debit then
                  (case verifyAccountBalance s (rq_accountId r) (rq_amount r) (rq_type r) of
                     Invalid e \<Rightarrow> Some e
                   | Valid _ \<Rightarrow> None)
                else None))"

text \<open>
  The writes: the ledger row, then the balance upsert with the signed amount. \<open>None\<close>
  when one of the two statements is refused.
\<close>

definition transaction_record :: "uuid \<Rightarrow> transaction_request \<Rightarrow> transaction_row" where
  "transaction_record transactionId r =
     \<lparr>tx_id = transactionId, tx_account_id = rq_accountId r,
      tx_transaction_type = rq_type r, tx_amount = rq_amount r,
      tx_description = rq_description r, tx_reference_id = rq_referenceId r,
      tx_status = ''completed''\<rparr>"

definition transaction_writes ::
  "ledger \<Rightarrow> uuid \<Rightarrow> transaction_request \<Rightarrow> (ledger \<times> transaction_row) option" where
  "transaction_writes s transactionId r =
     (case insert_transaction (transactions s) (transaction_record transactionId r) of
        None \<Rightarrow> None
      | Some rows \<Rightarrow>
          (let balanceUpdate = (if rq_type r = credit then rq_amount r else - rq_amount r)
           in case upsert_plus (account_balances s) (rq_accountId r) balanceUpdate of
                None \<Rightarrow> None
              | Some balances \<Rightarrow>
                  Some (s\<lparr>transactions := rows, account_balances := balances\<rparr>,
                        transaction_record transactionId r)))"

text \<open>
  A failed check answers with its error, a refused write with 500; in both cases the
  tables are as before (\<open>ROLLBACK\<close>). Otherwise the writes are committed together.
\<close>

definition create_transaction ::
  "ledger \<Rightarrow> user_id \<Rightarrow> uuid \<Rightarrow> transaction_request \<Rightarrow> ledger \<times> (error + transaction_row)" where
  "create_transaction s userId transactionId r =
     (case transaction_checks s userId r of
        Some e \<Rightarrow> (s, Inl e)
      | None \<Rightarrow>
          (case transaction_writes s transactionId r of
             None \<Rightarrow> (s, Inl TransactionFailed)
           | Some (s', t) \<Rightarrow> (s', Inr t)))"

subsection \<open>POST /transfer\<close>

record transfer_request =
  tr_fromAccountId :: account_id
  tr_toAccountId :: account_id
  tr_amount :: money
  tr_description :: string

definition transferSchema :: "transfer_request \<Rightarrow> bool" where
  "transferSchema r \<longleftrightarrow>
     0 < tr_fromAccountId r \<and> safe_integer (tr_fromAccountId r) \<and>
     0 < tr_toAccountId r \<and> safe_integer (tr_toAccountId r) \<and>
     0 < tr_amount r \<and> safe_amount (tr_amount r) \<and>
     tr_description r \<noteq> [] \<and> length (tr_description r) \<le> 255"

definition transfer_checks :: "ledger \<Rightarrow> user_id \<Rightarrow> transfer_request \<Rightarrow> error option" where
  "transfer_checks s userId r =
     (if \<not> transferSchema r then Some ValidationFailed
      else (case select_ownership (account_ownership s) (tr_fromAccountId r) userId of
              None \<Rightarrow> Some TransferFailed
            | Some n \<Rightarrow>
                if n = 0 then Some SourceAccountAccessDenied
                else (case verifyAccountBalance s (tr_fromAccountId r) (tr_amount r) debit of
                        Invalid e \<Rightarrow> Some e
                      | Valid _ \<Rightarrow> None)))"

text \<open>
  The three identifiers are \<open>transferId\<close> and the ids of the debit and the credit row.
  The writes are, in this order: the debit row, the credit row, the upsert that
  subtracts from the source, the upsert that adds to the destination. \<open>None\<close> when one
  of the four statements is refused.
\<close>

record transfer_ids =
  transferId :: uuid
  debitId :: uuid
  creditId :: uuid

record transfer_result =
  debitTransaction :: transaction_row
  creditTransaction :: transaction_row

definition debit_row :: "transfer_ids \<Rightarrow> transfer_request \<Rightarrow> transaction_row" where
  "debit_row ids r =
     \<lparr>tx_id = debitId ids, tx_account_id = tr_fromAccountId r,
      tx_transaction_type = debit, tx_amount = tr_amount r,
      tx_description = ''Transfer: '' @ tr_description r,
      tx_reference_id = Some (transferId ids), tx_status = ''completed''\<rparr>"

definition credit_row :: "transfer_ids \<Rightarrow> transfer_request \<Rightarrow> transaction_row" where
  "credit_row ids r =
     \<lparr>tx_id = creditId ids, tx_account_id = tr_toAccountId r,
      tx_transaction_type = credit, tx_amount = tr_amount r,
      tx_description = ''Transfer received: '' @ tr_description r,
      tx_reference_id = Some (transferId ids), tx_status = ''completed''\<rparr>"

definition transfer_writes ::
  "ledger \<Rightarrow> transfer_ids \<Rightarrow> transfer_request \<Rightarrow> (ledger \<times> transfer_result) option" where
  "transfer_writes s ids r =
     (case insert_transaction (transactions s) (debit_row ids r) of
        None \<Rightarrow> None
      | Some rows1 \<Rightarrow>
     (case insert_transaction rows1 (credit_row ids r) of
        None \<Rightarrow> None
      | Some rows2 \<Rightarrow>
     (case upsert_minus (account_balances s) (tr_fromAccountId r) (tr_amount r) of
        None \<Rightarrow> None
      | Some b1 \<Rightarrow>
     (case upsert_plus b1 (tr_toAccountId r) (tr_amount r) of
        None \<Rightarrow> None
      | Some b2 \<Rightarrow>
          Some (s\<lparr>transactions := rows2, account_balances := b2\<rparr>,
                \<lparr>debitTransaction = debit_row ids r,
                 creditTransaction = credit_row ids r\<rparr>)))))"

text \<open>
  A failed check answers with its error after \<open>ROLLBACK\<close> (nothing was written before
  it); a refused write answers 500 \<open>Transfer failed\<close> after \<open>ROLLBACK\<close>; otherwise the
  writes are committed together.
\<close>

definition transfer ::
  "ledger \<Rightarrow> user_id \<Rightarrow> transfer_ids \<Rightarrow> transfer_request \<Rightarrow> ledger \<times> (error + transfer_result)" where
  "transfer s userId ids r =
     (case transfer_checks s userId r of
        Some e \<Rightarrow> (s, Inl e)
      | None \<Rightarrow>
          (case transfer_writes s ids r of
             None \<Rightarrow> (s, Inl TransferFailed)
           | Some (s', t) \<Rightarrow> (s', Inr t)))"

text \<open>
  The ledger after the four writes of a transfer, when none of them is refused.
\<close>

definition transferred :: "ledger \<Rightarrow> transfer_ids \<Rightarrow> transfer_request \<Rightarrow> ledger" where
  "transferred s ids r =
     s\<lparr>transactions := transactions s @ [debit_row ids r, credit_row ids r],
       account_balances :=
         (let b1 = (account_balances s)
                     (tr_fromAccountId r \<mapsto>
                        (case account_balances s (tr_fromAccountId r) of
                           None \<Rightarrow> tr_amount r | Some b \<Rightarrow> b - tr_amount r))
          in b1(tr_toAccountId r \<mapsto>
                  (case b1 (tr_toAccountId r) of
                     None \<Rightarrow> tr_amount r | Some b \<Rightarrow> b + tr_amount r)))\<rparr>"

definition transfer_rows :: "transfer_ids \<Rightarrow> transfer_request \<Rightarrow> transfer_result" where
  "transfer_rows ids r =
     \<lparr>debitTransaction = debit_row ids r, creditTransaction = credit_row ids r\<rparr>"

text \<open>The balance of an account, an account without a row counting as zero.\<close>

definition balance_of :: "ledger \<Rightarrow> account_id \<Rightarrow> money" where
  "balance_of s a = (case account_balances s a of None \<Rightarrow> 0 | Some b \<Rightarrow> b)"

subsection \<open>Sequences of committed operations\<close>

text \<open>
  A ledger entry counts positive when it is a credit and negative when it is a debit;
  \<open>ledger_sum\<close> adds the entries of one account. Every row of \<open>transactions\<close> is a
  committed entry: the handlers insert rows inside the transaction that they commit.
\<close>

definition signed_amount :: "transaction_row \<Rightarrow> money" where
  "signed_amount t = (if tx_transaction_type t = credit then tx_amount t else - tx_amount t)"

definition ledger_sum :: "transaction_row list \<Rightarrow> account_id \<Rightarrow> money" where
  "ledger_sum txs a = sum_list (map signed_amount (filter (\<lambda>t. tx_account_id t = a) txs))"

datatype request =
    PostTransaction user_id uuid transaction_request
  | PostTransfer user_id transfer_ids transfer_request

fun handle :: "ledger \<Rightarrow> request \<Rightarrow> ledger" where
  "handle s (PostTransaction userId transactionId r) = fst (create_transaction s userId transactionId r)"
| "handle s (PostTransfer userId ids r) = fst (transfer s userId ids r)"

fun handle_all :: "ledger \<Rightarrow> request list \<Rightarrow> ledger" where
  "handle_all s [] = s"
| "handle_all s (q # qs) = handle_all (handle s q) qs"

text \<open>The service starts with empty ledger tables; the ownership pairs are given.\<close>

definition empty_ledger :: "(account_id \<times> user_id) set \<Rightarrow> ledger" where
  "empty_ledger own = \<lparr>transactions = [], account_balances = Map.empty, account_ownership = own\<rparr>"

definition balances_match_entries :: "ledger \<Rightarrow> bool" where
  "balances_match_entries s \<longleftrightarrow>
     (\<forall>a. balance_of s a = ledger_sum (transactions s) a)"

subsection \<open>Two transfer requests in flight\<close>

text \<open>
  The handler awaits every query, so another request can run between its reads and its
  writes. A request in flight is first \<open>Received\<close>; its first step runs the reads of the
  handler (schema, ownership, \<open>verifyAccountBalance\<close>) on the committed tables and either
  responds with the error or becomes \<open>Verified\<close>; its second step performs the four
  writes on the tables as they are by then, since the upserts compute the new balance
  from the row as it stands, and commits them, or answers 500 when a write is refused.
  \<open>interleave\<close> runs a schedule that names which of two requests takes the next step.
\<close>

datatype progress = Received | Verified | Responded "error + transfer_result"

record inflight =
  if_userId :: user_id
  if_ids :: transfer_ids
  if_request :: transfer_request
  if_progress :: progress

definition advance :: "ledger \<Rightarrow> inflight \<Rightarrow> ledger \<times> inflight" where
  "advance s w =
     (case if_progress w of
        Received \<Rightarrow>
          (case transfer_checks s (if_userId w) (if_request w) of
             Some e \<Rightarrow> (s, w\<lparr>if_progress := Responded (Inl e)\<rparr>)
           | None \<Rightarrow> (s, w\<lparr>if_progress := Verified\<rparr>))
      | Verified \<Rightarrow>
          (case transfer_writes s (if_ids w) (if_request w) of
             None \<Rightarrow> (s, w\<lparr>if_progress := Responded (Inl TransferFailed)\<rparr>)
           | Some (s', t) \<Rightarrow> (s', w\<lparr>if_progress := Responded (Inr t)\<rparr>))
      | Responded _ \<Rightarrow> (s, w))"

datatype turn = First | Second

fun interleave :: "turn list \<Rightarrow> ledger \<times> inflight \<times> inflight \<Rightarrow> ledger \<times> inflight \<times> inflight" where
  "interleave [] c = c"
| "interleave (First # ts) (s, w1, w2) =
     (case advance s w1 of (s', w1') \<Rightarrow> interleave ts (s', w1', w2))"
| "interleave (Second # ts) (s, w1, w2) =
     (case advance s w2 of (s', w2') \<Rightarrow> interleave ts (s', w1, w2'))"

definition received :: "user_id \<Rightarrow> transfer_ids \<Rightarrow> transfer_request \<Rightarrow> inflight" where
  "received userId ids r =
     \<lparr>if_userId = userId, if_ids = ids, if_request = r, if_progress = Received\<rparr>"

definition succeeded :: "inflight \<Rightarrow> bool" where
  "succeeded w = (case if_progress w of Responded (Inr _) \<Rightarrow> True | _ \<Rightarrow> False)"

definition committed_amount :: "inflight \<Rightarrow> money" where
  "committed_amount w = (if succeeded w then tr_amount (if_request w) else 0)"

text \<open>
  The schedules of two requests in which both are checked before either commits, and
  the two in which one request ends before the other begins.
\<close>

definition checks_before_commits :: "turn list list" where
  "checks_before_commits =
     [[First, Second, First, Second], [First, Second, Second, First],
      [Second, First, First, Second], [Second, First, Second, First]]"

section \<open>Payment service\<close>

text \<open>
  The payment service works on the database \<open>banking_payments\<close>: the \<open>payments\<close> table
  and the \<open>account_ownership\<close> relation its statements name, the message channel
  (\<open>channel\<close> is unset until the broker connection is up) and the
  \<open>payment.processing\<close> queue it sends to. Times are milliseconds within the range of
  \<open>TIMESTAMP\<close>; one reading of the clock, \<open>now\<close>, serves a whole request. The handlers of
  this service write no ledger entry: the tables of the ledger belong to the
  transaction service.

  The statements of the handlers name a relation and columns that the
  \<open>banking_payments\<close> of \<open>database/init.sql\<close> does not declare, and a statement that
  names a missing relation or column throws. What the database declares is therefore
  part of the state: whether \<open>account_ownership\<close> exists, whether \<open>payments\<close> has the
  columns \<open>updated_at\<close>, \<open>external_payee\<close> and \<open>risk_score\<close>, whether \<open>payments.id\<close> takes
  a uuid (it is \<open>SERIAL\<close> in \<open>init.sql\<close>), and whether the \<open>CHECK\<close> on \<open>payment_type\<close>
  admits \<open>bill_pay\<close>.
\<close>

record declared =
  has_account_ownership :: bool
  has_updated_at :: bool
  has_external_payee :: bool
  has_risk_score :: bool
  id_takes_uuid :: bool
  admits_bill_pay :: bool

text \<open>
  \<open>init_sql\<close> is the \<open>banking_payments\<close> that \<open>database/init.sql\<close> creates;
  \<open>handlers_sql\<close> declares everything the handlers' statements name.
\<close>

definition init_sql :: declared where
  "init_sql =
     \<lparr>has_account_ownership = False, has_updated_at = False, has_external_payee = False,
      has_risk_score = False, id_takes_uuid = False, admits_bill_pay = False\<rparr>"

definition handlers_sql :: declared where
  "handlers_sql =
     \<lparr>has_account_ownership = True, has_updated_at = True, has_external_payee = True,
      has_risk_score = True, id_takes_uuid = True, admits_bill_pay = True\<rparr>"

datatype payment_status = scheduled | pending_review | processing | completed | failed | cancelled

datatype payment_type = type_transfer | type_payment | type_bill_pay

record external_payee =
  ep_name :: string
  ep_accountNumber :: string
  ep_routingNumber :: string
  ep_bankName :: string

record payment_row =
  p_id :: uuid
  p_from_account_id :: account_id
  p_to_account_id :: "account_id option"
  p_amount :: money
  p_currency :: string
  p_payment_type :: payment_type
  p_description :: string
  p_status :: payment_status
  p_scheduled_at :: "time option"
  p_external_payee :: "external_payee option"
  p_risk_score :: int
  p_created_at :: time
  p_updated_at :: "time option"

text \<open>
  The two messages sent to \<open>payment.processing\<close>: \<open>{paymentId, userId}\<close> at creation
  and \<open>{paymentId, scheduled: true}\<close> from the scheduler.
\<close>

datatype processing_message = Created uuid user_id | Due uuid

record payment_service =
  database :: declared
  payments :: "payment_row list"
  ps_account_ownership :: "(account_id \<times> user_id) set"
  channel :: bool
  payment_processing :: "processing_message list"

record payment_request =
  pr_fromAccountId :: account_id
  pr_toAccountId :: "account_id option"
  pr_amount :: money
  pr_currency :: "string option"
  pr_paymentType :: payment_type
  pr_description :: string
  pr_scheduledAt :: "time option"
  pr_externalPayee :: "external_payee option"

definition paymentSchema :: "payment_request \<Rightarrow> bool" where
  "paymentSchema r \<longleftrightarrow>
     0 < pr_fromAccountId r \<and> safe_integer (pr_fromAccountId r) \<and>
     (case pr_toAccountId r of None \<Rightarrow> True | Some t \<Rightarrow> 0 < t \<and> safe_integer t) \<and>
     0 < pr_amount r \<and> safe_amount (pr_amount r) \<and>
     (case pr_currency r of None \<Rightarrow> True | Some c \<Rightarrow> length c = 3) \<and>
     pr_description r \<noteq> [] \<and> length (pr_description r) \<le> 255 \<and>
     (case pr_externalPayee r of
        None \<Rightarrow> True
      | Some e \<Rightarrow> ep_name e \<noteq> [] \<and> ep_accountNumber e \<noteq> [] \<and>
                 ep_routingNumber e \<noteq> [] \<and> ep_bankName e \<noteq> [])"

subsection \<open>detectFraud\<close>

text \<open>
  The amount \<open>10000\<close> of the source is \<open>1000000\<close> hundredths. \<open>recentPayments\<close> is the
  \<open>COUNT(*)\<close> of the payments of the source account created within the last hour; the
  handler calls \<open>detectFraud\<close> after the ownership query, hence with an account id
  within \<open>INTEGER\<close>.
\<close>

definition one_hour :: time where
  "one_hour = 3600000"

definition recentPayments :: "payment_service \<Rightarrow> account_id \<Rightarrow> time \<Rightarrow> int" where
  "recentPayments s fromAccountId now =
     int (length (filter (\<lambda>p. p_from_account_id p = fromAccountId \<and> now - one_hour < p_created_at p)
            (payments s)))"

record fraud_check =
  riskScore :: int
  riskFactors :: "string list"
  requiresReview :: bool

definition detectFraud :: "payment_service \<Rightarrow> payment_request \<Rightarrow> time \<Rightarrow> fraud_check" where
  "detectFraud s paymentData now =
     (let f1 = (if 1000000 < pr_amount paymentData then [''large_amount''] else []);
          f2 = (if 5 < recentPayments s (pr_fromAccountId paymentData) now
                then f1 @ [''high_frequency''] else f1);
          score = int (length f2) * 25
      in \<lparr>riskScore = score, riskFactors = f2, requiresReview = (50 < score)\<rparr>)"

subsection \<open>POST /: create a payment\<close>

text \<open>
  The reads before the \<open>INSERT\<close>: the schema, then the ownership query, which throws
  when \<open>account_ownership\<close> is not declared or a parameter is outside \<open>INTEGER\<close>.
\<close>

definition payment_checks :: "payment_service \<Rightarrow> user_id \<Rightarrow> payment_request \<Rightarrow> error option" where
  "payment_checks s userId r =
     (if \<not> paymentSchema r then Some ValidationFailed
      else if \<not> has_account_ownership (database s) then Some PaymentCreationFailed
      else (case select_ownership (ps_account_ownership s) (pr_fromAccountId r) userId of
              None \<Rightarrow> Some PaymentCreationFailed
            | Some n \<Rightarrow> if n = 0 then Some AccountAccessDenied else None))"

definition isScheduled :: "payment_request \<Rightarrow> time \<Rightarrow> bool" where
  "isScheduled paymentData now =
     (case pr_scheduledAt paymentData of None \<Rightarrow> False | Some t \<Rightarrow> now < t)"

definition initial_status :: "bool \<Rightarrow> bool \<Rightarrow> payment_status" where
  "initial_status sched review =
     (if sched then scheduled else if review then pending_review else processing)"

text \<open>
  \<open>INSERT INTO payments (id, ..., external_payee, risk_score, created_at)\<close>: refused
  when a named column is not declared, when \<open>id\<close> does not take a uuid, when the
  \<open>CHECK\<close> rejects the payment type, when the id is already a key, when the
  destination account id is outside \<open>INTEGER\<close> or the amount outside \<open>DECIMAL(15,2)\<close>,
  or when the currency or the description contains a NUL character.
\<close>

definition insert_payment :: "declared \<Rightarrow> payment_row list \<Rightarrow> payment_row \<Rightarrow> payment_row list option" where
  "insert_payment d rows p =
     (if has_external_payee d \<and> has_risk_score d \<and> id_takes_uuid d \<and>
         (if p_payment_type p = type_bill_pay then admits_bill_pay d else True) \<and>
         p_id p \<notin> p_id ` set rows \<and>
         int4 (p_from_account_id p) \<and>
         (case p_to_account_id p of None \<Rightarrow> True | Some t \<Rightarrow> int4 t) \<and>
         numeric_15_2 (p_amount p) \<and>
         no_nul (p_currency p) \<and> no_nul (p_description p)
      then Some (rows @ [p]) else None)"

definition new_payment ::
  "payment_service \<Rightarrow> uuid \<Rightarrow> time \<Rightarrow> payment_request \<Rightarrow> payment_row" where
  "new_payment s paymentId now paymentData =
     \<lparr>p_id = paymentId,
      p_from_account_id = pr_fromAccountId paymentData,
      p_to_account_id = pr_toAccountId paymentData,
      p_amount = pr_amount paymentData,
      p_currency = (case pr_currency paymentData of None \<Rightarrow> ''USD'' | Some c \<Rightarrow> c),
      p_payment_type = pr_paymentType paymentData,
      p_description = pr_description paymentData,
      p_status = initial_status (isScheduled paymentData now)
                   (requiresReview (detectFraud s paymentData now)),
      p_scheduled_at = pr_scheduledAt paymentData,
      p_external_payee = pr_externalPayee paymentData,
      p_risk_score = riskScore (detectFraud s paymentData now),
      p_created_at = now,
      p_updated_at = None\<rparr>"

definition create_payment ::
  "payment_service \<Rightarrow> user_id \<Rightarrow> uuid \<Rightarrow> time \<Rightarrow> payment_request
     \<Rightarrow> payment_service \<times> (error + payment_row)" where
  "create_payment s userId paymentId now paymentData =
     (case payment_checks s userId paymentData of
        Some e \<Rightarrow> (s, Inl e)
      | None \<Rightarrow>
         (let fraudCheck = detectFraud s paymentData now;
              sched = isScheduled paymentData now;
              payment = new_payment s paymentId now paymentData
          in case insert_payment (database s) (payments s) payment of
               None \<Rightarrow> (s, Inl PaymentCreationFailed)
             | Some rows \<Rightarrow>
                 (let s1 = s\<lparr>payments := rows\<rparr>;
                      s2 = (if \<not> sched \<and> \<not> requiresReview fraudCheck then
                              (if channel s1
                               then s1\<lparr>payment_processing :=
                                         payment_processing s1 @ [Created (p_id payment) userId]\<rparr>
                               else s1)
                            else s1)
                  in (s2, Inr payment))))"

subsection \<open>DELETE /:paymentId: cancel a payment\<close>

text \<open>
  The \<open>WHERE\<close> clause of the \<open>UPDATE\<close>: the id, the caller's ownership of the source
  account, and the status.
\<close>

definition cancel_matches :: "payment_service \<Rightarrow> user_id \<Rightarrow> uuid \<Rightarrow> payment_row \<Rightarrow> bool" where
  "cancel_matches s userId paymentId p \<longleftrightarrow>
     p_id p = paymentId \<and> (p_from_account_id p, userId) \<in> ps_account_ownership s \<and>
     (p_status p = scheduled \<or> p_status p = pending_review)"

text \<open>
  The \<open>UPDATE\<close> sets \<open>updated_at\<close> and joins \<open>account_ownership\<close>: it throws when either
  is not declared or when the user id is outside \<open>INTEGER\<close>, and the handler answers
  500 \<open>Failed to cancel payment\<close>.
\<close>

definition cancel_payment ::
  "payment_service \<Rightarrow> user_id \<Rightarrow> uuid \<Rightarrow> time \<Rightarrow> payment_service \<times> (error + unit)" where
  "cancel_payment s userId paymentId now =
     (if \<not> (has_account_ownership (database s) \<and> has_updated_at (database s) \<and> int4 userId)
      then (s, Inl FailedToCancelPayment)
      else
       (let rows = filter (cancel_matches s userId paymentId) (payments s);
            s' = s\<lparr>payments :=
                    map (\<lambda>p. if cancel_matches s userId paymentId p
                             then p\<lparr>p_status := cancelled, p_updated_at := Some now\<rparr> else p)
                      (payments s)\<rparr>
        in if rows = [] then (s', Inl PaymentNotFoundOrCannotBeCancelled) else (s', Inr ())))"

subsection \<open>The scheduled payment processor\<close>




section \<open>Sample data\<close>

text \<open>
  An account \<open>1\<close> owned by user \<open>7\<close> that holds \<open>1000.00\<close> after one deposit, the same
  owner before any deposit, and a transfer request out of account \<open>1\<close>.
\<close>

definition sample_ledger :: ledger where
  "sample_ledger =
     \<lparr>transactions =
        [\<lparr>tx_id = ''e1'', tx_account_id = 1, tx_transaction_type = credit, tx_amount = 100000,
          tx_description = ''deposit'', tx_reference_id = None, tx_status = ''completed''\<rparr>],
      account_balances = [1 \<mapsto> 100000],
      account_ownership = {(1, 7)}\<rparr>"

definition sample_ids :: transfer_ids where
  "sample_ids = \<lparr>transferId = ''t1'', debitId = ''d1'', creditId = ''c1''\<rparr>"

definition sample_transfer :: "account_id \<Rightarrow> money \<Rightarrow> transfer_request" where
  "sample_transfer to amount =
     \<lparr>tr_fromAccountId = 1, tr_toAccountId = to, tr_amount = amount, tr_description = ''rent''\<rparr>"

definition sample_result :: "account_id \<Rightarrow> money \<Rightarrow> transfer_result" where
  "sample_result to amount =
     \<lparr>debitTransaction =
        \<lparr>tx_id = ''d1'', tx_account_id = 1, tx_transaction_type = debit, tx_amount = amount,
         tx_description = ''Transfer: rent'', tx_reference_id = Some ''t1'',
         tx_status = ''completed''\<rparr>,
      creditTransaction =
        \<lparr>tx_id = ''c1'', tx_account_id = to, tx_transaction_type = credit, tx_amount = amount,
         tx_description = ''Transfer received: rent'', tx_reference_id = Some ''t1'',
         tx_status = ''completed''\<rparr>\<rparr>"

definition unfunded_ledger :: ledger where
  "unfunded_ledger = \<lparr>transactions = [], account_balances = Map.empty, account_ownership = {(1, 7)}\<rparr>"

text \<open>
  A second set of identifiers, a deposit of \<open>1000.00\<close> to account \<open>1\<close>, and a history
  of three requests: the deposit, a transfer of \<open>1500.00\<close> that is refused and a
  transfer of \<open>400.00\<close>.
\<close>

definition other_ids :: transfer_ids where
  "other_ids = \<lparr>transferId = ''t2'', debitId = ''d2'', creditId = ''c2''\<rparr>"

definition sample_deposit :: transaction_request where
  "sample_deposit = \<lparr>rq_accountId = 1, rq_amount = 100000, rq_type = credit,
     rq_description = ''deposit'', rq_referenceId = None\<rparr>"

definition sample_history :: "request list" where
  "sample_history =
     [PostTransaction 7 ''e1'' sample_deposit,
      PostTransfer 7 other_ids (sample_transfer 2 150000),
      PostTransfer 7 sample_ids (sample_transfer 2 40000)]"

text \<open>
  A payment row of account \<open>1\<close>, a payment request, and payment services whose only
  ownership pair is \<open>(1, 7)\<close>: \<open>sample_service\<close> on the database of \<open>init.sql\<close>,
  \<open>declared_service\<close> on a database that declares what the handlers name,
  \<open>busy_service\<close> with six payments of account \<open>1\<close> within the last hour, and
  \<open>two_payments\<close> with one scheduled and one processing payment.
\<close>

definition sample_payment :: "uuid \<Rightarrow> payment_status \<Rightarrow> time option \<Rightarrow> payment_row" where
  "sample_payment paymentId status due =
     \<lparr>p_id = paymentId, p_from_account_id = 1, p_to_account_id = Some 2, p_amount = 2500,
      p_currency = ''USD'', p_payment_type = type_transfer, p_description = ''rent'',
      p_status = status, p_scheduled_at = due, p_external_payee = None, p_risk_score = 0,
      p_created_at = 0, p_updated_at = None\<rparr>"

definition sample_service :: "bool \<Rightarrow> payment_row list \<Rightarrow> payment_service" where
  "sample_service connected rows =
     \<lparr>database = init_sql, payments = rows, ps_account_ownership = {(1, 7)},
      channel = connected, payment_processing = []\<rparr>"

definition declared_service :: "bool \<Rightarrow> payment_row list \<Rightarrow> payment_service" where
  "declared_service connected rows =
     \<lparr>database = handlers_sql, payments = rows, ps_account_ownership = {(1, 7)},
      channel = connected, payment_processing = []\<rparr>"

definition sample_request :: "money \<Rightarrow> time option \<Rightarrow> payment_request" where
  "sample_request amount due =
     \<lparr>pr_fromAccountId = 1, pr_toAccountId = Some 2, pr_amount = amount, pr_currency = None,
      pr_paymentType = type_transfer, pr_description = ''rent'', pr_scheduledAt = due,
      pr_externalPayee = None\<rparr>"

definition busy_service :: payment_service where
  "busy_service =
     declared_service True
       (map (\<lambda>i. (sample_payment i completed None)\<lparr>p_created_at := 900\<rparr>)
          [''a'', ''b'', ''c'', ''d'', ''e'', ''f''])"

definition two_payments :: "declared \<Rightarrow> payment_service" where
  "two_payments d =
     (sample_service True
        [sample_payment ''p1'' scheduled (Some 5000), sample_payment ''p2'' processing None])
     \<lparr>database := d\<rparr>"

section \<open>Facts about the writes and the checks\<close>

lemmas sample_defs = sample_ledger_def sample_ids_def sample_transfer_def

lemma insert_transaction_SomeD:
  "insert_transaction rows t = Some rows' \<Longrightarrow> rows' = rows @ [t]"
  by (simp add: insert_transaction_def split: if_splits)

lemma upsert_plus_SomeD:
  "upsert_plus m a v = Some m' \<Longrightarrow>
     m' = m(a \<mapsto> (case m a of None \<Rightarrow> v | Some b \<Rightarrow> b + v))"
  by (simp add: upsert_plus_def Let_def split: if_splits)

lemma upsert_minus_SomeD:
  "upsert_minus m a v = Some m' \<Longrightarrow>
     m' = m(a \<mapsto> (case m a of None \<Rightarrow> v | Some b \<Rightarrow> b - v))"
  by (simp add: upsert_minus_def Let_def split: if_splits)

lemma transfer_writes_SomeD:
  assumes "transfer_writes s ids r = Some (s', t)"
  shows "s' = transferred s ids r" and "t = transfer_rows ids r"
proof -
  from assms obtain rows1 rows2 b1 b2 where
    r1: "insert_transaction (transactions s) (debit_row ids r) = Some rows1" and
    r2: "insert_transaction rows1 (credit_row ids r) = Some rows2" and
    u1: "upsert_minus (account_balances s) (tr_fromAccountId r) (tr_amount r) = Some b1" and
    u2: "upsert_plus b1 (tr_toAccountId r) (tr_amount r) = Some b2" and
    s': "s' = s\<lparr>transactions := rows2, account_balances := b2\<rparr>" and
    t: "t = \<lparr>debitTransaction = debit_row ids r, creditTransaction = credit_row ids r\<rparr>"
    unfolding transfer_writes_def by (simp split: option.splits)
  have "rows2 = transactions s @ [debit_row ids r, credit_row ids r]"
    using insert_transaction_SomeD[OF r1] insert_transaction_SomeD[OF r2] by simp
  moreover note upsert_minus_SomeD[OF u1] upsert_plus_SomeD[OF u2]
  ultimately show "s' = transferred s ids r"
    unfolding s' transferred_def Let_def by simp
  show "t = transfer_rows ids r" unfolding t transfer_rows_def by simp
qed

lemma transferred_fields:
  "transactions (transferred s ids r) = transactions s @ [debit_row ids r, credit_row ids r]"
  "account_ownership (transferred s ids r) = account_ownership s"
  by (simp_all add: transferred_def)

lemma transferred_balance_of:
  assumes "account_balances s (tr_fromAccountId r) = Some b"
  shows "balance_of (transferred s ids r) x =
     balance_of s x - (if x = tr_fromAccountId r then tr_amount r else 0)
                    + (if x = tr_toAccountId r then tr_amount r else 0)"
  using assms
  by (auto simp: transferred_def balance_of_def Let_def split: option.splits)

lemma transferred_source_row:
  assumes "account_balances s (tr_fromAccountId r) = Some x"
    and "tr_toAccountId r \<noteq> tr_fromAccountId r"
  shows "account_balances (transferred s ids r) (tr_fromAccountId r) = Some (x - tr_amount r)"
  using assms by (simp add: transferred_def Let_def)

lemma transferred_destination_row:
  assumes "tr_toAccountId r \<noteq> tr_fromAccountId r"
  shows "account_balances (transferred s ids r) (tr_toAccountId r) =
           Some (balance_of s (tr_toAccountId r) + tr_amount r)"
  using assms by (simp add: transferred_def Let_def balance_of_def split: option.splits)

lemma transfer_rows_fields:
  "debitTransaction (transfer_rows ids r) = debit_row ids r"
  "creditTransaction (transfer_rows ids r) = credit_row ids r"
  by (simp_all add: transfer_rows_def)

lemma debit_row_fields:
  "tx_description (debit_row ids r) = ''Transfer: '' @ tr_description r"
  "tx_id (debit_row ids r) = debitId ids"
  "tx_account_id (debit_row ids r) = tr_fromAccountId r"
  "tx_transaction_type (debit_row ids r) = debit"
  "tx_amount (debit_row ids r) = tr_amount r"
  "tx_reference_id (debit_row ids r) = Some (transferId ids)"
  by (simp_all add: debit_row_def)

lemma credit_row_fields:
  "tx_description (credit_row ids r) = ''Transfer received: '' @ tr_description r"
  "tx_id (credit_row ids r) = creditId ids"
  "tx_account_id (credit_row ids r) = tr_toAccountId r"
  "tx_transaction_type (credit_row ids r) = credit"
  "tx_amount (credit_row ids r) = tr_amount r"
  "tx_reference_id (credit_row ids r) = Some (transferId ids)"
  by (simp_all add: credit_row_def)

text \<open>Conditions under which none of the four writes is refused.\<close>

lemma transfer_writes_accepted:
  assumes "debitId ids \<notin> tx_id ` set (transactions s)"
    and "creditId ids \<notin> tx_id ` set (transactions s)"
    and "debitId ids \<noteq> creditId ids"
    and "length (transferId ids) \<le> 100 \<and> no_nul (transferId ids) \<and> no_nul (tr_description r)"
    and "int4 (tr_fromAccountId r)" and "int4 (tr_toAccountId r)"
    and "account_balances s (tr_fromAccountId r) = Some x"
    and "numeric_15_2 (tr_amount r)"
    and "numeric_15_2 (x - tr_amount r)"
    and "numeric_15_2 (if tr_toAccountId r = tr_fromAccountId r then x
                       else balance_of s (tr_toAccountId r) + tr_amount r)"
  shows "transfer_writes s ids r = Some (transferred s ids r, transfer_rows ids r)"
proof -
  let ?b1 = "(account_balances s)(tr_fromAccountId r \<mapsto> x - tr_amount r)"
  let ?v = "case ?b1 (tr_toAccountId r) of None \<Rightarrow> tr_amount r | Some b \<Rightarrow> b + tr_amount r"
  have r1: "insert_transaction (transactions s) (debit_row ids r) =
      Some (transactions s @ [debit_row ids r])"
    using assms by (simp add: insert_transaction_def debit_row_fields no_nul_def)
  have r2: "insert_transaction (transactions s @ [debit_row ids r]) (credit_row ids r) =
      Some (transactions s @ [debit_row ids r, credit_row ids r])"
    using assms by (simp add: insert_transaction_def credit_row_fields debit_row_fields no_nul_def)
  have u1: "upsert_minus (account_balances s) (tr_fromAccountId r) (tr_amount r) = Some ?b1"
    using assms by (simp add: upsert_minus_def Let_def)
  have v: "?v = (if tr_toAccountId r = tr_fromAccountId r then x
                 else balance_of s (tr_toAccountId r) + tr_amount r)"
    by (simp add: balance_of_def split: option.splits)
  have u2: "upsert_plus ?b1 (tr_toAccountId r) (tr_amount r) = Some (?b1(tr_toAccountId r \<mapsto> ?v))"
    using assms(6,8,10) unfolding v[symmetric] by (simp add: upsert_plus_def Let_def)
  have tf: "transferred s ids r =
      s\<lparr>transactions := transactions s @ [debit_row ids r, credit_row ids r],
        account_balances := ?b1(tr_toAccountId r \<mapsto> ?v)\<rparr>"
    using assms(7) by (simp add: transferred_def Let_def)
  show ?thesis
    unfolding tf by (simp add: transfer_writes_def r1 r2 u1 u2 transfer_rows_def)
qed

lemma transfer_passed:
  "transfer_checks s u r = None \<Longrightarrow> transfer_writes s ids r = Some (s', t) \<Longrightarrow>
     transfer s u ids r = (s', Inr t)"
  by (simp add: transfer_def)

lemma transfer_write_refused:
  "transfer_checks s u r = None \<Longrightarrow> transfer_writes s ids r = None \<Longrightarrow>
     transfer s u ids r = (s, Inl TransferFailed)"
  by (simp add: transfer_def)

lemma transfer_refused:
  "transfer_checks s u r = Some e \<Longrightarrow> transfer s u ids r = (s, Inl e)"
  by (simp add: transfer_def)

lemma transfer_InrD:
  assumes "transfer s u ids r = (s', Inr t)"
  shows "transfer_checks s u r = None" and "transfer_writes s ids r = Some (s', t)"
  using assms by (auto simp: transfer_def split: option.splits prod.splits)

lemma transfer_checks_eq:
  assumes "transferSchema r" and "(tr_fromAccountId r, u) \<in> account_ownership s"
  shows "transfer_checks s u r =
     (case account_balances s (tr_fromAccountId r) of
        None \<Rightarrow> if int4 (tr_fromAccountId r) then Some AccountNotFound
                 else Some BalanceVerificationFailed
      | Some b \<Rightarrow> if b < tr_amount r then Some InsufficientFunds else None)"
  using assms
  by (simp add: transfer_checks_def select_ownership_def verifyAccountBalance_def
      split: option.splits)

lemma transfer_checks_NoneD:
  assumes "transfer_checks s u r = None"
  shows "transferSchema r"
    and "\<exists>b. account_balances s (tr_fromAccountId r) = Some b \<and> tr_amount r \<le> b"
  using assms
  by (auto simp: transfer_checks_def verifyAccountBalance_def
      split: if_splits option.splits balance_check.splits)

lemma transfer_never_blames_destination:
  assumes "account_balances s (tr_fromAccountId r) = Some b"
  shows "snd (transfer s u ids r) \<noteq> Inl AccountNotFound"
proof (cases "transfer_checks s u r")
  case None
  then show ?thesis
    by (cases "transfer_writes s ids r") (auto simp: transfer_def)
next
  case (Some e)
  then have "e \<noteq> AccountNotFound"
    using assms
    by (auto simp: transfer_checks_def verifyAccountBalance_def
        split: if_splits option.splits)
  then show ?thesis using Some by (simp add: transfer_refused)
qed

lemma sample_checks:
  "0 < to \<Longrightarrow> safe_integer to \<Longrightarrow> 0 < a \<Longrightarrow> safe_amount a \<Longrightarrow>
     transferSchema (sample_transfer to a)"
  "(tr_fromAccountId (sample_transfer to a), 7) \<in> account_ownership sample_ledger"
  "(tr_fromAccountId (sample_transfer to a), 7) \<in> account_ownership unfunded_ledger"
  by (simp_all add: transferSchema_def safe_integer_def sample_defs unfunded_ledger_def)

lemma sample_fields:
  "tr_fromAccountId (sample_transfer to a) = 1"
  "tr_toAccountId (sample_transfer to a) = to"
  "tr_amount (sample_transfer to a) = a"
  "tr_description (sample_transfer to a) = ''rent''"
  "account_balances sample_ledger 1 = Some 100000"
  "account_balances sample_ledger 2 = None"
  "account_balances sample_ledger 3 = None"
  "account_balances unfunded_ledger x = None"
  "balance_of sample_ledger 1 = 100000"
  "balance_of sample_ledger 2 = 0"
  "balance_of sample_ledger 3 = 0"
  "length (transactions sample_ledger) = 1"
  "tx_id ` set (transactions sample_ledger) = {''e1''}"
  "(1, 7) \<in> account_ownership sample_ledger"
  "(1, 7) \<in> account_ownership unfunded_ledger"
  by (simp_all add: sample_defs unfunded_ledger_def balance_of_def)

lemma sample_ids_fields:
  "transferId sample_ids = ''t1''" "debitId sample_ids = ''d1''" "creditId sample_ids = ''c1''"
  "transferId other_ids = ''t2''" "debitId other_ids = ''d2''" "creditId other_ids = ''c2''"
  by (simp_all add: sample_ids_def other_ids_def)

lemma sample_rows:
  "transfer_rows sample_ids (sample_transfer to a) = sample_result to a"
  by (simp add: transfer_rows_def debit_row_def credit_row_def sample_defs sample_result_def)

lemma sample_ranges:
  "int4 1" "int4 2" "int4 3" "safe_integer 1" "safe_integer 2" "safe_integer 3"
  "numeric_15_2 0" "numeric_15_2 40000" "numeric_15_2 60000" "numeric_15_2 100000"
  "numeric_15_2 (- 20000)"
  "safe_amount 40000" "safe_amount 60000" "safe_amount 100000" "safe_amount 150000"
  "no_nul ''rent''" "no_nul ''t1''" "no_nul ''t2''" "no_nul ''USD''"
  by (simp_all add: int4_def numeric_15_2_def safe_integer_def safe_amount_def no_nul_def)

lemma sample_passes:
  "0 < to \<Longrightarrow> safe_integer to \<Longrightarrow> 0 < a \<Longrightarrow> a \<le> 100000 \<Longrightarrow>
   transfer_checks sample_ledger 7 (sample_transfer to a) = None"
  by (simp add: transfer_checks_eq sample_checks sample_fields safe_amount_def)

lemma sample_transfer_result:
  "transfer sample_ledger 7 sample_ids (sample_transfer 2 40000) =
     (transferred sample_ledger sample_ids (sample_transfer 2 40000), Inr (sample_result 2 40000))"
proof -
  have p: "transfer_checks sample_ledger 7 (sample_transfer 2 40000) = None"
    by (simp add: sample_passes sample_ranges)
  have w: "transfer_writes sample_ledger sample_ids (sample_transfer 2 40000) =
      Some (transferred sample_ledger sample_ids (sample_transfer 2 40000),
            transfer_rows sample_ids (sample_transfer 2 40000))"
    by (rule transfer_writes_accepted[where x = 100000])
       (simp_all add: sample_fields sample_ids_fields sample_ranges)
  show ?thesis using transfer_passed[OF p w] by (simp add: sample_rows)
qed

lemma sample_self_transfer_result:
  "transfer sample_ledger 7 sample_ids (sample_transfer 1 40000) =
     (transferred sample_ledger sample_ids (sample_transfer 1 40000), Inr (sample_result 1 40000))"
proof -
  have p: "transfer_checks sample_ledger 7 (sample_transfer 1 40000) = None"
    by (simp add: sample_passes sample_ranges)
  have w: "transfer_writes sample_ledger sample_ids (sample_transfer 1 40000) =
      Some (transferred sample_ledger sample_ids (sample_transfer 1 40000),
            transfer_rows sample_ids (sample_transfer 1 40000))"
    by (rule transfer_writes_accepted[where x = 100000])
       (simp_all add: sample_fields sample_ids_fields sample_ranges)
  show ?thesis using transfer_passed[OF p w] by (simp add: sample_rows)
qed

section \<open>The transfer handler\<close>

text \<open>
  C1 (as amended). A successful transfer appends exactly two ledger entries: a debit
  entry on the source account and a credit entry on the destination account, both of
  the requested amount and both with the transfer id as reference id, so that the debit
  amount plus the negated credit amount is zero. When the two accounts differ, the
  source balance decreases by the amount and the destination balance (zero for an
  account that had no balance row) increases by it. When source and destination are
  the same account, which the request schema allows, the two entries are written all
  the same and the balance of the account ends where it started.
\<close>

theorem transfer_double_entry:
  "transfer s userId ids r = (s', Inr t) \<Longrightarrow>
     transactions s' = transactions s @ [debitTransaction t, creditTransaction t] \<and>
     tx_account_id (debitTransaction t) = tr_fromAccountId r \<and>
     tx_transaction_type (debitTransaction t) = debit \<and>
     tx_amount (debitTransaction t) = tr_amount r \<and>
     tx_account_id (creditTransaction t) = tr_toAccountId r \<and>
     tx_transaction_type (creditTransaction t) = credit \<and>
     tx_amount (creditTransaction t) = tr_amount r \<and>
     tx_reference_id (debitTransaction t) = Some (transferId ids) \<and>
     tx_reference_id (creditTransaction t) = Some (transferId ids) \<and>
     tx_amount (debitTransaction t) + - tx_amount (creditTransaction t) = 0 \<and>
     (if tr_fromAccountId r = tr_toAccountId r
      then balance_of s' (tr_fromAccountId r) = balance_of s (tr_fromAccountId r)
      else balance_of s' (tr_fromAccountId r) = balance_of s (tr_fromAccountId r) - tr_amount r \<and>
           balance_of s' (tr_toAccountId r) = balance_of s (tr_toAccountId r) + tr_amount r)"
proof -
  assume ok: "transfer s userId ids r = (s', Inr t)"
  from transfer_InrD[OF ok] have c: "transfer_checks s userId r = None"
    and w: "transfer_writes s ids r = Some (s', t)" by simp_all
  from transfer_checks_NoneD(2)[OF c] obtain b where
    b: "account_balances s (tr_fromAccountId r) = Some b" by blast
  note s' = transfer_writes_SomeD(1)[OF w] and t = transfer_writes_SomeD(2)[OF w]
  show ?thesis
    unfolding s' t
    by (simp add: transferred_fields transfer_rows_fields debit_row_fields credit_row_fields
        transferred_balance_of[OF b])
qed

text \<open>
  The transfer of \<open>400.00\<close> from account \<open>1\<close> holding \<open>1000.00\<close> to account \<open>2\<close>.
\<close>

theorem transfer_double_entry_witness:
  "transfer sample_ledger 7 sample_ids (sample_transfer 2 40000) =
     (fst (transfer sample_ledger 7 sample_ids (sample_transfer 2 40000)),
      Inr (sample_result 2 40000)) \<and>
   transactions (fst (transfer sample_ledger 7 sample_ids (sample_transfer 2 40000))) =
     transactions sample_ledger @
       [debitTransaction (sample_result 2 40000), creditTransaction (sample_result 2 40000)] \<and>
   balance_of sample_ledger 1 = 100000 \<and> balance_of sample_ledger 2 = 0 \<and>
   balance_of (fst (transfer sample_ledger 7 sample_ids (sample_transfer 2 40000))) 1 = 60000 \<and>
   balance_of (fst (transfer sample_ledger 7 sample_ids (sample_transfer 2 40000))) 2 = 40000"
proof -
  have h: "transfer sample_ledger 7 sample_ids (sample_transfer 2 40000) =
     (fst (transfer sample_ledger 7 sample_ids (sample_transfer 2 40000)),
      Inr (sample_result 2 40000))"
    by (simp add: sample_transfer_result)
  from transfer_double_entry[OF h] show ?thesis
    by (simp add: sample_transfer_result sample_fields)
qed

text \<open>
  A transfer of \<open>400.00\<close> from account \<open>1\<close> to account \<open>1\<close> succeeds and leaves the
  balance at \<open>1000.00\<close>: the source balance has not decreased by the amount.
\<close>

theorem transfer_to_same_account_counterexample:
  "snd (transfer sample_ledger 7 sample_ids (sample_transfer 1 40000)) = Inr (sample_result 1 40000) \<and>
   balance_of sample_ledger 1 = 100000 \<and>
   balance_of (fst (transfer sample_ledger 7 sample_ids (sample_transfer 1 40000))) 1 = 100000 \<and>
   balance_of (fst (transfer sample_ledger 7 sample_ids (sample_transfer 1 40000))) 1 \<noteq>
     balance_of sample_ledger 1 - 40000"
  by (simp add: sample_self_transfer_result sample_fields
      transferred_balance_of[where b = 100000])

text \<open>
  C3. A transfer request that passes the schema, comes from an owner of the source
  account and asks for more than the balance of the source account is answered with
  \<open>Insufficient funds\<close> and leaves the ledger as it was: no entry is created and no
  balance changes. A request for exactly the balance (or less) is not answered with
  \<open>Insufficient funds\<close>.
\<close>

theorem transfer_insufficient_funds:
  assumes "transferSchema r"
    and "(tr_fromAccountId r, userId) \<in> account_ownership s"
    and "account_balances s (tr_fromAccountId r) = Some b"
  shows "if b < tr_amount r
         then transfer s userId ids r = (s, Inl InsufficientFunds)
         else snd (transfer s userId ids r) \<noteq> Inl InsufficientFunds"
proof (cases "b < tr_amount r")
  case True
  then have "transfer_checks s userId r = Some InsufficientFunds"
    using assms by (simp add: transfer_checks_eq)
  then show ?thesis using True by (simp add: transfer_refused)
next
  case False
  then have c: "transfer_checks s userId r = None"
    using assms by (simp add: transfer_checks_eq)
  show ?thesis
    using False by (cases "transfer_writes s ids r") (auto simp: transfer_def c)
qed

text \<open>
  With \<open>1000.00\<close> on the account, \<open>1500.00\<close> is refused and \<open>1000.00\<close> is not.
\<close>

theorem transfer_insufficient_funds_witness:
  "transferSchema (sample_transfer 2 150000) \<and>
   (tr_fromAccountId (sample_transfer 2 150000), 7) \<in> account_ownership sample_ledger \<and>
   account_balances sample_ledger (tr_fromAccountId (sample_transfer 2 150000)) = Some 100000 \<and>
   transfer sample_ledger 7 sample_ids (sample_transfer 2 150000) =
     (sample_ledger, Inl InsufficientFunds) \<and>
   transferSchema (sample_transfer 2 100000) \<and>
   (tr_fromAccountId (sample_transfer 2 100000), 7) \<in> account_ownership sample_ledger \<and>
   account_balances sample_ledger (tr_fromAccountId (sample_transfer 2 100000)) = Some 100000 \<and>
   snd (transfer sample_ledger 7 sample_ids (sample_transfer 2 100000)) \<noteq> Inl InsufficientFunds"
proof -
  have v1: "transferSchema (sample_transfer 2 150000)"
    and v2: "transferSchema (sample_transfer 2 100000)"
    by (simp_all add: sample_checks sample_ranges)
  have b: "account_balances sample_ledger (tr_fromAccountId (sample_transfer 2 a)) = Some 100000" for a
    by (simp add: sample_fields)
  from transfer_insufficient_funds[OF v1 sample_checks(2) b, of sample_ids]
       transfer_insufficient_funds[OF v2 sample_checks(2) b, of sample_ids]
  show ?thesis using v1 v2 by (simp add: sample_fields sample_checks)
qed

text \<open>
  C8 (as amended). For a request that passes the schema and comes from an owner of the
  source account: when the source account has no balance row (its id being within
  \<open>INTEGER\<close>), the transfer is answered with \<open>Account not found\<close> and the ledger is left
  as it was. The destination account is never looked up: when the source account has a
  balance row, no transfer is answered with \<open>Account not found\<close>, whatever the
  destination; and a transfer that succeeds towards an account without a balance row
  writes both entries and creates that row holding the amount.
\<close>

theorem transfer_unknown_account:
  assumes "transferSchema r"
    and "(tr_fromAccountId r, userId) \<in> account_ownership s"
  shows "(account_balances s (tr_fromAccountId r) = None \<and> int4 (tr_fromAccountId r) \<longrightarrow>
            transfer s userId ids r = (s, Inl AccountNotFound)) \<and>
         ((\<exists>b. account_balances s (tr_fromAccountId r) = Some b) \<longrightarrow>
            snd (transfer s userId ids r) \<noteq> Inl AccountNotFound) \<and>
         (\<forall>s' t. account_balances s (tr_toAccountId r) = None \<and>
                 transfer s userId ids r = (s', Inr t) \<longrightarrow>
            account_balances s' (tr_toAccountId r) = Some (tr_amount r) \<and>
            transactions s' = transactions s @ [debitTransaction t, creditTransaction t])"
proof (intro conjI impI allI)
  assume "account_balances s (tr_fromAccountId r) = None \<and> int4 (tr_fromAccountId r)"
  then have "transfer_checks s userId r = Some AccountNotFound"
    using assms by (simp add: transfer_checks_eq)
  then show "transfer s userId ids r = (s, Inl AccountNotFound)"
    by (rule transfer_refused)
next
  assume "\<exists>b. account_balances s (tr_fromAccountId r) = Some b"
  then obtain b where "account_balances s (tr_fromAccountId r) = Some b" by blast
  then show "snd (transfer s userId ids r) \<noteq> Inl AccountNotFound"
    by (rule transfer_never_blames_destination)
next
  fix s' t
  assume a: "account_balances s (tr_toAccountId r) = None \<and>
    transfer s userId ids r = (s', Inr t)"
  then have n: "account_balances s (tr_toAccountId r) = None"
    and ok: "transfer s userId ids r = (s', Inr t)" by simp_all
  from transfer_InrD[OF ok] have c: "transfer_checks s userId r = None"
    and w: "transfer_writes s ids r = Some (s', t)" by simp_all
  from transfer_checks_NoneD(2)[OF c] obtain b where
    b: "account_balances s (tr_fromAccountId r) = Some b" by blast
  from b n have ne: "tr_toAccountId r \<noteq> tr_fromAccountId r" by auto
  note s' = transfer_writes_SomeD(1)[OF w] and t = transfer_writes_SomeD(2)[OF w]
  show "account_balances s' (tr_toAccountId r) = Some (tr_amount r)"
    unfolding s' using n by (simp add: transferred_destination_row[OF ne] balance_of_def)
  show "transactions s' = transactions s @ [debitTransaction t, creditTransaction t]"
    unfolding s' t by (simp add: transferred_fields transfer_rows_fields)
qed

text \<open>
  An unknown source account is refused; the transfer of \<open>400.00\<close> to the unknown
  account \<open>2\<close> succeeds and creates its row.
\<close>

theorem transfer_unknown_account_witness:
  "transferSchema (sample_transfer 2 40000) \<and>
   (tr_fromAccountId (sample_transfer 2 40000), 7) \<in> account_ownership unfunded_ledger \<and>
   account_balances unfunded_ledger (tr_fromAccountId (sample_transfer 2 40000)) = None \<and>
   int4 (tr_fromAccountId (sample_transfer 2 40000)) \<and>
   transfer unfunded_ledger 7 sample_ids (sample_transfer 2 40000) = (unfunded_ledger, Inl AccountNotFound) \<and>
   (tr_fromAccountId (sample_transfer 2 40000), 7) \<in> account_ownership sample_ledger \<and>
   account_balances sample_ledger (tr_fromAccountId (sample_transfer 2 40000)) = Some 100000 \<and>
   snd (transfer sample_ledger 7 sample_ids (sample_transfer 2 40000)) \<noteq> Inl AccountNotFound \<and>
   account_balances sample_ledger (tr_toAccountId (sample_transfer 2 40000)) = None \<and>
   transfer sample_ledger 7 sample_ids (sample_transfer 2 40000) =
     (transferred sample_ledger sample_ids (sample_transfer 2 40000), Inr (sample_result 2 40000)) \<and>
   account_balances (transferred sample_ledger sample_ids (sample_transfer 2 40000)) 2 = Some 40000 \<and>
   transactions (transferred sample_ledger sample_ids (sample_transfer 2 40000)) =
     transactions sample_ledger @
       [debitTransaction (sample_result 2 40000), creditTransaction (sample_result 2 40000)]"
proof -
  have v: "transferSchema (sample_transfer 2 40000)"
    by (simp add: sample_checks sample_ranges)
  note o1 = sample_checks(3)[of 2 40000] and o2 = sample_checks(2)[of 2 40000]
  note A = transfer_unknown_account[OF v o1, of sample_ids]
  note B = transfer_unknown_account[OF v o2, of sample_ids]
  have f1: "account_balances unfunded_ledger (tr_fromAccountId (sample_transfer 2 40000)) = None"
    and f2: "int4 (tr_fromAccountId (sample_transfer 2 40000))"
    and f3: "account_balances sample_ledger (tr_fromAccountId (sample_transfer 2 40000)) = Some 100000"
    and f4: "account_balances sample_ledger (tr_toAccountId (sample_transfer 2 40000)) = None"
    by (simp_all add: sample_fields sample_ranges)
  note r = sample_transfer_result
  have w1: "transfer unfunded_ledger 7 sample_ids (sample_transfer 2 40000) =
      (unfunded_ledger, Inl AccountNotFound)"
    using A f1 f2 by blast
  have w2: "snd (transfer sample_ledger 7 sample_ids (sample_transfer 2 40000)) \<noteq> Inl AccountNotFound"
    using B f3 by blast
  have w3: "account_balances (transferred sample_ledger sample_ids (sample_transfer 2 40000))
        (tr_toAccountId (sample_transfer 2 40000)) = Some (tr_amount (sample_transfer 2 40000)) \<and>
      transactions (transferred sample_ledger sample_ids (sample_transfer 2 40000)) =
        transactions sample_ledger @
          [debitTransaction (sample_result 2 40000), creditTransaction (sample_result 2 40000)]"
    using B f4 r by blast
  have w4: "account_balances (transferred sample_ledger sample_ids (sample_transfer 2 40000)) 2 =
      Some 40000"
    using w3 by (simp add: sample_fields(2,3))
  show ?thesis
    using v o1 f1 f2 w1 o2 f3 w2 f4 r w3 w4 by blast
qed

text \<open>
  Account \<open>2\<close> has no balance row, yet the transfer to it succeeds, writes two ledger
  entries and creates the row.
\<close>

theorem transfer_unknown_destination_counterexample:
  "account_balances sample_ledger 2 = None \<and>
   snd (transfer sample_ledger 7 sample_ids (sample_transfer 2 40000)) = Inr (sample_result 2 40000) \<and>
   snd (transfer sample_ledger 7 sample_ids (sample_transfer 2 40000)) \<noteq> Inl AccountNotFound \<and>
   account_balances (fst (transfer sample_ledger 7 sample_ids (sample_transfer 2 40000))) 2 = Some 40000 \<and>
   length (transactions (fst (transfer sample_ledger 7 sample_ids (sample_transfer 2 40000)))) =
     length (transactions sample_ledger) + 2"
  using transferred_destination_row[of "sample_transfer 2 40000" sample_ledger sample_ids]
  by (simp add: sample_transfer_result sample_fields transferred_fields)

section \<open>Balances and ledger entries\<close>

lemma ledger_sum_append:
  "ledger_sum (xs @ ys) a = ledger_sum xs a + ledger_sum ys a"
  by (simp add: ledger_sum_def)

lemma ledger_sum_single:
  "ledger_sum [t] a = (if tx_account_id t = a then signed_amount t else 0)"
  by (simp add: ledger_sum_def)

lemma transaction_writes_SomeD:
  assumes "transaction_writes s transactionId r = Some (s', t)"
  shows "transactions s' = transactions s @ [transaction_record transactionId r]"
    and "account_balances s' =
           (account_balances s)(rq_accountId r \<mapsto>
              (case account_balances s (rq_accountId r) of
                 None \<Rightarrow> (if rq_type r = credit then rq_amount r else - rq_amount r)
               | Some b \<Rightarrow> b + (if rq_type r = credit then rq_amount r else - rq_amount r)))"
    and "t = transaction_record transactionId r"
proof -
  from assms obtain rows balances where
    r1: "insert_transaction (transactions s) (transaction_record transactionId r) = Some rows" and
    u1: "upsert_plus (account_balances s) (rq_accountId r)
           (if rq_type r = credit then rq_amount r else - rq_amount r) = Some balances" and
    s': "s' = s\<lparr>transactions := rows, account_balances := balances\<rparr>" and
    t: "t = transaction_record transactionId r"
    unfolding transaction_writes_def Let_def by (simp split: option.splits)
  show "transactions s' = transactions s @ [transaction_record transactionId r]"
    unfolding s' using insert_transaction_SomeD[OF r1] by simp
  show "account_balances s' =
           (account_balances s)(rq_accountId r \<mapsto>
              (case account_balances s (rq_accountId r) of
                 None \<Rightarrow> (if rq_type r = credit then rq_amount r else - rq_amount r)
               | Some b \<Rightarrow> b + (if rq_type r = credit then rq_amount r else - rq_amount r)))"
    unfolding s' using upsert_plus_SomeD[OF u1] by simp
  show "t = transaction_record transactionId r" by (rule t)
qed

lemma transaction_writes_keeps_match:
  assumes "balances_match_entries s"
    and "transaction_writes s transactionId r = Some (s', t)"
  shows "balances_match_entries s'"
proof -
  note w = transaction_writes_SomeD[OF assms(2)]
  have "balance_of s' x = ledger_sum (transactions s') x" for x
  proof -
    have "balance_of s' x =
          balance_of s x + (if x = rq_accountId r
             then (if rq_type r = credit then rq_amount r else - rq_amount r) else 0)"
      by (simp add: w(2) balance_of_def split: option.splits)
    moreover have "ledger_sum (transactions s') x =
          ledger_sum (transactions s) x + (if x = rq_accountId r
             then (if rq_type r = credit then rq_amount r else - rq_amount r) else 0)"
      by (simp add: w(1) ledger_sum_append ledger_sum_single signed_amount_def
          transaction_record_def)
    ultimately show ?thesis using assms(1) by (simp add: balances_match_entries_def)
  qed
  then show ?thesis by (simp add: balances_match_entries_def)
qed

lemma create_transaction_keeps_match:
  assumes "balances_match_entries s"
  shows "balances_match_entries (fst (create_transaction s u transactionId r))"
proof (cases "transaction_checks s u r")
  case None
  show ?thesis
  proof (cases "transaction_writes s transactionId r")
    case n: None
    then show ?thesis using None assms by (simp add: create_transaction_def)
  next
    case (Some p)
    obtain s' t where p: "p = (s', t)" by (cases p)
    have "fst (create_transaction s u transactionId r) = s'"
      using None Some p by (simp add: create_transaction_def)
    then show ?thesis
      using transaction_writes_keeps_match[OF assms Some[unfolded p]] by simp
  qed
next
  case (Some e)
  then show ?thesis using assms by (simp add: create_transaction_def)
qed

lemma transfer_keeps_match:
  assumes "balances_match_entries s"
  shows "balances_match_entries (fst (transfer s u ids r))"
proof (cases "transfer_checks s u r")
  case None
  from transfer_checks_NoneD(2)[OF None] obtain b where
    b: "account_balances s (tr_fromAccountId r) = Some b" by blast
  show ?thesis
  proof (cases "transfer_writes s ids r")
    case n: None
    then show ?thesis using None assms by (simp add: transfer_write_refused)
  next
    case (Some p)
    obtain s' t where p: "p = (s', t)" by (cases p)
    note s' = transfer_writes_SomeD(1)[OF Some[unfolded p]]
    have "balance_of (transferred s ids r) x = ledger_sum (transactions (transferred s ids r)) x" for x
      using assms
      by (simp add: transferred_balance_of[OF b] transferred_fields ledger_sum_append
          ledger_sum_def signed_amount_def debit_row_fields credit_row_fields
          balances_match_entries_def)
    then show ?thesis
      using transfer_passed[OF None Some[unfolded p]] s'
      by (simp add: balances_match_entries_def)
  qed
next
  case (Some e)
  then show ?thesis using assms by (simp add: transfer_refused)
qed

lemma handle_keeps_match:
  "balances_match_entries s \<Longrightarrow> balances_match_entries (handle s q)"
  by (cases q) (simp_all add: create_transaction_keeps_match transfer_keeps_match)

lemma handle_all_keeps_match:
  "balances_match_entries s \<Longrightarrow> balances_match_entries (handle_all s qs)"
  by (induction qs arbitrary: s) (simp_all add: handle_keeps_match)

lemma empty_ledger_matches: "balances_match_entries (empty_ledger own)"
  by (simp add: balances_match_entries_def empty_ledger_def balance_of_def ledger_sum_def)

text \<open>
  C2. The service starts with empty ledger tables. After any sequence of requests to the
  two handlers, each either committed or refused without a trace, the balance of every
  account (zero for an account without a balance row) equals the signed sum of the
  ledger entries of that account, credits counting positive and debits negative; in
  particular every stored balance equals that sum.
\<close>

theorem balance_equals_ledger_sum:
  "balance_of (handle_all (empty_ledger own) qs) a =
     ledger_sum (transactions (handle_all (empty_ledger own) qs)) a \<and>
   (\<forall>b. account_balances (handle_all (empty_ledger own) qs) a = Some b \<longrightarrow>
      b = ledger_sum (transactions (handle_all (empty_ledger own) qs)) a)"
proof -
  have "balances_match_entries (handle_all (empty_ledger own) qs)"
    by (rule handle_all_keeps_match[OF empty_ledger_matches])
  then have "balance_of (handle_all (empty_ledger own) qs) a =
     ledger_sum (transactions (handle_all (empty_ledger own) qs)) a"
    by (simp add: balances_match_entries_def)
  then show ?thesis by (auto simp: balance_of_def)
qed

text \<open>
  After the sample history account \<open>1\<close> holds \<open>600.00\<close> and account \<open>2\<close> holds
  \<open>400.00\<close>, and so do their ledger entries.
\<close>

lemma sample_deposit_result:
  "handle (empty_ledger {(1, 7)}) (PostTransaction 7 ''e1'' sample_deposit) = sample_ledger"
  by (simp add: create_transaction_def transaction_checks_def transactionSchema_def
      select_ownership_def transaction_writes_def insert_transaction_def upsert_plus_def
      transaction_record_def sample_deposit_def empty_ledger_def sample_ledger_def
      int4_def numeric_15_2_def safe_integer_def safe_amount_def no_nul_def Let_def)

lemma sample_refusal:
  "handle sample_ledger (PostTransfer 7 other_ids (sample_transfer 2 150000)) = sample_ledger"
proof -
  have "transfer_checks sample_ledger 7 (sample_transfer 2 150000) = Some InsufficientFunds"
    by (simp add: transfer_checks_eq sample_checks sample_fields sample_ranges)
  then show ?thesis by (simp add: transfer_refused)
qed

lemma sample_acceptance:
  "handle sample_ledger (PostTransfer 7 sample_ids (sample_transfer 2 40000)) =
     transferred sample_ledger sample_ids (sample_transfer 2 40000)"
  by (simp add: sample_transfer_result)

lemma sample_history_balances:
  "account_balances (handle_all (empty_ledger {(1, 7)}) sample_history) 1 = Some 60000"
  "account_balances (handle_all (empty_ledger {(1, 7)}) sample_history) 2 = Some 40000"
proof -
  have h: "handle_all (empty_ledger {(1, 7)}) sample_history =
      transferred sample_ledger sample_ids (sample_transfer 2 40000)"
    unfolding sample_history_def
    by (simp add: sample_deposit_result sample_refusal sample_acceptance del: handle.simps)
  show "account_balances (handle_all (empty_ledger {(1, 7)}) sample_history) 1 = Some 60000"
    unfolding h
    using transferred_source_row[of sample_ledger "sample_transfer 2 40000" 100000 sample_ids]
    by (simp add: sample_fields)
  show "account_balances (handle_all (empty_ledger {(1, 7)}) sample_history) 2 = Some 40000"
    unfolding h
    using transferred_destination_row[of "sample_transfer 2 40000" sample_ledger sample_ids]
    by (simp add: sample_fields)
qed

theorem balance_equals_ledger_sum_witness:
  "account_balances (handle_all (empty_ledger {(1, 7)}) sample_history) 1 = Some 60000 \<and>
   ledger_sum (transactions (handle_all (empty_ledger {(1, 7)}) sample_history)) 1 = 60000 \<and>
   account_balances (handle_all (empty_ledger {(1, 7)}) sample_history) 2 = Some 40000 \<and>
   ledger_sum (transactions (handle_all (empty_ledger {(1, 7)}) sample_history)) 2 = 40000"
  using balance_equals_ledger_sum[of "{(1, 7)}" sample_history 1]
    balance_equals_ledger_sum[of "{(1, 7)}" sample_history 2]
  by (simp add: sample_history_balances)

section \<open>Two transfers against the same source account\<close>

lemma advance_Received:
  "if_progress w = Received \<Longrightarrow>
   advance s w =
     (s, w\<lparr>if_progress := (case transfer_checks s (if_userId w) (if_request w) of
                               Some e \<Rightarrow> Responded (Inl e) | None \<Rightarrow> Verified)\<rparr>)"
  by (simp add: advance_def split: option.splits)

lemma advance_Verified:
  "if_progress w = Verified \<Longrightarrow>
   advance s w =
     (case transfer_writes s (if_ids w) (if_request w) of
        None \<Rightarrow> (s, w\<lparr>if_progress := Responded (Inl TransferFailed)\<rparr>)
      | Some (s', t) \<Rightarrow> (s', w\<lparr>if_progress := Responded (Inr t)\<rparr>))"
  by (simp add: advance_def)

lemma advance_Responded:
  "if_progress w = Responded x \<Longrightarrow> advance s w = (s, w)"
  by (simp add: advance_def)

lemma advance_request: "if_request (snd (advance s w)) = if_request w"
  by (cases "if_progress w")
     (simp_all add: advance_Received advance_Verified advance_Responded
        split: option.splits prod.splits)

lemma committed_amount_simps:
  "committed_amount (w\<lparr>if_progress := Received\<rparr>) = 0"
  "committed_amount (w\<lparr>if_progress := Verified\<rparr>) = 0"
  "committed_amount (w\<lparr>if_progress := Responded (Inl e)\<rparr>) = 0"
  "committed_amount (w\<lparr>if_progress := Responded (Inr t)\<rparr>) = tr_amount (if_request w)"
  by (simp_all add: committed_amount_def succeeded_def)

lemma committed_amount_unfinished:
  "if_progress w = Received \<or> if_progress w = Verified \<Longrightarrow> committed_amount w = 0"
  by (auto simp: committed_amount_def succeeded_def)

lemma received_fields:
  "if_progress (received u ids r) = Received"
  "if_request (received u ids r) = r"
  "if_userId (received u ids r) = u"
  "if_ids (received u ids r) = ids"
  "committed_amount (received u ids r) = 0"
  "\<not> succeeded (received u ids r)"
  by (simp_all add: received_def committed_amount_def succeeded_def)

lemma succeeded_simps:
  "succeeded (w\<lparr>if_progress := Responded (Inr t)\<rparr>)"
  "\<not> succeeded (w\<lparr>if_progress := Responded (Inl e)\<rparr>)"
  "\<not> succeeded (w\<lparr>if_progress := Verified\<rparr>)"
  by (simp_all add: succeeded_def)

lemma interleave_append:
  "interleave (xs @ ys) c = interleave ys (interleave xs c)"
proof (induction xs arbitrary: c)
  case Nil
  then show ?case by simp
next
  case (Cons t xs)
  obtain s w1 w2 where c: "c = (s, w1, w2)" by (cases c)
  show ?case
    unfolding c by (cases t) (simp_all add: Cons.IH split: prod.splits)
qed

text \<open>
  A request that takes both of its steps with nothing in between is the handler
  \<open>transfer\<close>.
\<close>

lemma alone_is_transfer:
  "interleave [First, First] (s, received u ids r, w2) =
     (fst (transfer s u ids r),
      (received u ids r)\<lparr>if_progress := Responded (snd (transfer s u ids r))\<rparr>, w2)"
  "interleave [Second, Second] (s, w1, received u ids r) =
     (fst (transfer s u ids r), w1,
      (received u ids r)\<lparr>if_progress := Responded (snd (transfer s u ids r))\<rparr>)"
proof -
  have a: "advance s (received u ids r) =
      (s, (received u ids r)\<lparr>if_progress :=
             (case transfer_checks s u r of Some e \<Rightarrow> Responded (Inl e) | None \<Rightarrow> Verified)\<rparr>)"
    by (simp add: advance_Received received_fields)
  have b: "advance s ((received u ids r)\<lparr>if_progress :=
             (case transfer_checks s u r of Some e \<Rightarrow> Responded (Inl e) | None \<Rightarrow> Verified)\<rparr>) =
      (fst (transfer s u ids r),
       (received u ids r)\<lparr>if_progress := Responded (snd (transfer s u ids r))\<rparr>)"
  proof (cases "transfer_checks s u r")
    case None
    then show ?thesis
      by (cases "transfer_writes s ids r")
         (auto simp: advance_Verified received_fields transfer_def)
  next
    case (Some e)
    then show ?thesis
      by (simp add: advance_Responded[where x = "Inl e"] transfer_refused)
  qed
  show "interleave [First, First] (s, received u ids r, w2) =
     (fst (transfer s u ids r),
      (received u ids r)\<lparr>if_progress := Responded (snd (transfer s u ids r))\<rparr>, w2)"
    by (simp add: a b)
  show "interleave [Second, Second] (s, w1, received u ids r) =
     (fst (transfer s u ids r), w1,
      (received u ids r)\<lparr>if_progress := Responded (snd (transfer s u ids r))\<rparr>)"
    by (simp add: a b)
qed

lemma advance_source_balance:
  assumes "tr_fromAccountId (if_request w) = a"
    and "tr_toAccountId (if_request w) \<noteq> a"
    and "account_balances s a = Some x"
  shows "account_balances (fst (advance s w)) a =
           Some (x + committed_amount w - committed_amount (snd (advance s w)))"
proof (cases "if_progress w")
  case Received
  then show ?thesis
    using assms(3)
    by (simp add: advance_Received committed_amount_unfinished committed_amount_simps
        split: option.splits)
next
  case Verified
  show ?thesis
  proof (cases "transfer_writes s (if_ids w) (if_request w)")
    case None
    then show ?thesis
      using Verified assms(3)
      by (simp add: advance_Verified committed_amount_unfinished committed_amount_simps)
  next
    case (Some p)
    obtain s' t where p: "p = (s', t)" by (cases p)
    note s' = transfer_writes_SomeD(1)[OF Some[unfolded p]]
    have "account_balances s' a = Some (x - tr_amount (if_request w))"
      unfolding s'
      using transferred_source_row[of s "if_request w" x "if_ids w"] assms by simp
    then show ?thesis
      using Verified Some p
      by (simp add: advance_Verified committed_amount_unfinished committed_amount_simps)
  qed
next
  case (Responded res)
  then show ?thesis using assms(3) by (simp add: advance_Responded)
qed

lemma interleave_source_balance:
  assumes "tr_fromAccountId (if_request w1) = a" and "tr_toAccountId (if_request w1) \<noteq> a"
    and "tr_fromAccountId (if_request w2) = a" and "tr_toAccountId (if_request w2) \<noteq> a"
    and "account_balances s a = Some x"
  shows "account_balances (fst (interleave sch (s, w1, w2))) a =
           Some (x + committed_amount w1 + committed_amount w2
                   - committed_amount (fst (snd (interleave sch (s, w1, w2))))
                   - committed_amount (snd (snd (interleave sch (s, w1, w2)))))"
  using assms
proof (induction sch arbitrary: s w1 w2 x)
  case Nil
  then show ?case by simp
next
  case (Cons t sch)
  show ?case
  proof (cases t)
    case First
    obtain s' w1' where st: "advance s w1 = (s', w1')" by (cases "advance s w1")
    have r: "if_request w1' = if_request w1"
      using advance_request[of s w1] st by simp
    have b: "account_balances s' a = Some (x + committed_amount w1 - committed_amount w1')"
      using advance_source_balance[OF Cons.prems(1,2,5)] st by simp
    from Cons.IH[of w1' w2 s', OF _ _ Cons.prems(3,4) b] Cons.prems(1,2) r
    show ?thesis using First st by simp
  next
    case Second
    obtain s' w2' where st: "advance s w2 = (s', w2')" by (cases "advance s w2")
    have r: "if_request w2' = if_request w2"
      using advance_request[of s w2] st by simp
    have b: "account_balances s' a = Some (x + committed_amount w2 - committed_amount w2')"
      using advance_source_balance[OF Cons.prems(3,4,5)] st by simp
    from Cons.IH[of w1 w2' s', OF Cons.prems(1,2) _ _ b] Cons.prems(3,4) r
    show ?thesis using Second st by simp
  qed
qed

lemma interleave_request:
  "if_request (fst (snd (interleave sch (s, w1, w2)))) = if_request w1"
  "if_request (snd (snd (interleave sch (s, w1, w2)))) = if_request w2"
proof (induction sch arbitrary: s w1 w2)
  case Nil
  { case 1 show ?case by simp }
  { case 2 show ?case by simp }
next
  case (Cons t sch)
  { case 1
    show ?case
      using Cons.IH(1) advance_request[of s w1]
      by (cases t) (simp_all add: case_prod_beta) }
  { case 2
    show ?case
      using Cons.IH(2) advance_request[of s w2]
      by (cases t) (simp_all add: case_prod_beta) }
qed

text \<open>One request after the other: the second is checked against what the first left.\<close>

lemma second_is_refused:
  assumes "transferSchema r2"
    and "tr_fromAccountId r1 = a" and "tr_fromAccountId r2 = a"
    and "tr_toAccountId r1 \<noteq> a"
    and "(a, u2) \<in> account_ownership s"
    and "account_balances s a = Some b"
    and "b < tr_amount r1 + tr_amount r2"
    and "transfer s u1 ida r1 = (s1, Inr t1)"
  shows "transfer s1 u2 idb r2 = (s1, Inl InsufficientFunds)"
    and "account_balances s1 a = Some (b - tr_amount r1)"
proof -
  note w = transfer_InrD(2)[OF assms(8)]
  note s1 = transfer_writes_SomeD(1)[OF w]
  show b1: "account_balances s1 a = Some (b - tr_amount r1)"
    unfolding s1 using transferred_source_row[of s r1 b ida] assms by simp
  have "transfer_checks s1 u2 r2 = Some InsufficientFunds"
    using assms b1 by (simp add: transfer_checks_eq s1 transferred_fields)
  then show "transfer s1 u2 idb r2 = (s1, Inl InsufficientFunds)"
    by (rule transfer_refused)
qed

lemma one_after_the_other:
  assumes "transferSchema rb"
    and "tr_fromAccountId ra = a" and "tr_fromAccountId rb = a"
    and "tr_toAccountId ra \<noteq> a"
    and "(a, ub) \<in> account_ownership s"
    and "account_balances s a = Some b"
    and "b < tr_amount ra + tr_amount rb"
  shows "case interleave [First, First, Second, Second]
                (s, received ua ida ra, received ub idb rb) of
           (s', wa, wb) \<Rightarrow>
             \<not> (succeeded wa \<and> succeeded wb) \<and>
             (succeeded wa \<longrightarrow>
                if_progress wb = Responded (Inl InsufficientFunds) \<and>
                account_balances s' a = Some (b - tr_amount ra))"
    and "case interleave [Second, Second, First, First]
                (s, received ub idb rb, received ua ida ra) of
           (s', wb, wa) \<Rightarrow>
             \<not> (succeeded wb \<and> succeeded wa) \<and>
             (succeeded wa \<longrightarrow>
                if_progress wb = Responded (Inl InsufficientFunds) \<and>
                account_balances s' a = Some (b - tr_amount ra))"
proof -
  obtain sa xa where ta: "transfer s ua ida ra = (sa, xa)" by (cases "transfer s ua ida ra")
  have ida: "interleave [First, First, Second, Second]
        (s, received ua ida ra, received ub idb rb) =
      (fst (transfer sa ub idb rb),
       (received ua ida ra)\<lparr>if_progress := Responded xa\<rparr>,
       (received ub idb rb)\<lparr>if_progress := Responded (snd (transfer sa ub idb rb))\<rparr>)"
    using interleave_append[of "[First, First]" "[Second, Second]"]
    by (simp add: alone_is_transfer ta del: interleave.simps)
  have idb: "interleave [Second, Second, First, First]
        (s, received ub idb rb, received ua ida ra) =
      (fst (transfer sa ub idb rb),
       (received ub idb rb)\<lparr>if_progress := Responded (snd (transfer sa ub idb rb))\<rparr>,
       (received ua ida ra)\<lparr>if_progress := Responded xa\<rparr>)"
    using interleave_append[of "[Second, Second]" "[First, First]"]
    by (simp add: alone_is_transfer ta del: interleave.simps)
  have k: "\<not> (succeeded ((received ua ida ra)\<lparr>if_progress := Responded xa\<rparr>) \<and>
        succeeded ((received ub idb rb)\<lparr>if_progress := Responded (snd (transfer sa ub idb rb))\<rparr>)) \<and>
      (succeeded ((received ua ida ra)\<lparr>if_progress := Responded xa\<rparr>) \<longrightarrow>
         Responded (snd (transfer sa ub idb rb)) = Responded (Inl InsufficientFunds) \<and>
         account_balances (fst (transfer sa ub idb rb)) a = Some (b - tr_amount ra))"
  proof (cases xa)
    case (Inl e)
    then show ?thesis by (simp add: succeeded_simps)
  next
    case (Inr t)
    note r = second_is_refused(1)[OF assms ta[unfolded Inr], where idb = idb]
      second_is_refused(2)[OF assms ta[unfolded Inr]]
    show ?thesis unfolding Inr by (simp add: r succeeded_simps)
  qed
  show "case interleave [First, First, Second, Second]
                (s, received ua ida ra, received ub idb rb) of
           (s', wa, wb) \<Rightarrow>
             \<not> (succeeded wa \<and> succeeded wb) \<and>
             (succeeded wa \<longrightarrow>
                if_progress wb = Responded (Inl InsufficientFunds) \<and>
                account_balances s' a = Some (b - tr_amount ra))"
    unfolding ida using k by (auto simp: succeeded_simps)
  show "case interleave [Second, Second, First, First]
                (s, received ub idb rb, received ua ida ra) of
           (s', wb, wa) \<Rightarrow>
             \<not> (succeeded wb \<and> succeeded wa) \<and>
             (succeeded wa \<longrightarrow>
                if_progress wb = Responded (Inl InsufficientFunds) \<and>
                account_balances s' a = Some (b - tr_amount ra))"
    unfolding idb using k by (auto simp: succeeded_simps)
qed

text \<open>Both requests checked before either commits.\<close>

lemma both_verified:
  assumes "transfer_checks s u1 r1 = None" and "transfer_checks s u2 r2 = None"
  shows "interleave [First, Second] (s, received u1 i1 r1, received u2 i2 r2) =
           (s, (received u1 i1 r1)\<lparr>if_progress := Verified\<rparr>,
               (received u2 i2 r2)\<lparr>if_progress := Verified\<rparr>)"
    and "interleave [Second, First] (s, received u1 i1 r1, received u2 i2 r2) =
           (s, (received u1 i1 r1)\<lparr>if_progress := Verified\<rparr>,
               (received u2 i2 r2)\<lparr>if_progress := Verified\<rparr>)"
  using assms by (simp_all add: advance_Received received_fields)

lemma commit_outcome:
  assumes "if_progress w = Verified"
  shows "succeeded (snd (advance s w)) \<or>
         if_progress (snd (advance s w)) = Responded (Inl TransferFailed)"
  using assms
  by (cases "transfer_writes s (if_ids w) (if_request w)")
     (auto simp: advance_Verified succeeded_simps)

lemma commits_either_order:
  assumes "if_progress v1 = Verified" and "if_progress v2 = Verified"
    and "sch = [First, Second] \<or> sch = [Second, First]"
  shows "case interleave sch (s, v1, v2) of
           (s', w1, w2) \<Rightarrow>
             (succeeded w1 \<or> if_progress w1 = Responded (Inl TransferFailed)) \<and>
             (succeeded w2 \<or> if_progress w2 = Responded (Inl TransferFailed))"
proof -
  have a: "interleave [First, Second] (s, v1, v2) =
      (fst (advance (fst (advance s v1)) v2), snd (advance s v1),
       snd (advance (fst (advance s v1)) v2))"
    by (simp add: case_prod_beta)
  have b: "interleave [Second, First] (s, v1, v2) =
      (fst (advance (fst (advance s v2)) v1), snd (advance (fst (advance s v2)) v1),
       snd (advance s v2))"
    by (simp add: case_prod_beta)
  from assms(3) show ?thesis
  proof
    assume e: "sch = [First, Second]"
    show ?thesis
      unfolding e a
      using commit_outcome[OF assms(1), of s] commit_outcome[OF assms(2), of "fst (advance s v1)"]
      by simp
  next
    assume e: "sch = [Second, First]"
    show ?thesis
      unfolding e b
      using commit_outcome[OF assms(2), of s] commit_outcome[OF assms(1), of "fst (advance s v2)"]
      by simp
  qed
qed

lemma racing_outcome:
  assumes "transfer_checks s u1 r1 = None" and "transfer_checks s u2 r2 = None"
    and "sch \<in> set checks_before_commits"
  shows "case interleave sch (s, received u1 i1 r1, received u2 i2 r2) of
           (s', w1, w2) \<Rightarrow>
             (succeeded w1 \<or> if_progress w1 = Responded (Inl TransferFailed)) \<and>
             (succeeded w2 \<or> if_progress w2 = Responded (Inl TransferFailed))"
proof -
  from assms(3) have
    "sch = [First, Second] @ [First, Second] \<or> sch = [First, Second] @ [Second, First] \<or>
     sch = [Second, First] @ [First, Second] \<or> sch = [Second, First] @ [Second, First]"
    by (simp add: checks_before_commits_def)
  then obtain xs ys where
    sch: "sch = xs @ ys" and
    xs: "xs = [First, Second] \<or> xs = [Second, First]" and
    ys: "ys = [First, Second] \<or> ys = [Second, First]"
    by blast
  have v: "interleave xs (s, received u1 i1 r1, received u2 i2 r2) =
      (s, (received u1 i1 r1)\<lparr>if_progress := Verified\<rparr>,
          (received u2 i2 r2)\<lparr>if_progress := Verified\<rparr>)"
    using xs both_verified[OF assms(1,2)] by auto
  show ?thesis
    unfolding sch interleave_append v
    by (rule commits_either_order[OF _ _ ys]) simp_all
qed

lemma racing_schedule:
  assumes "transfer_checks s u1 r1 = None"
    and "transfer_checks s u2 r2 = None"
    and "transfer_writes s i1 r1 = Some (s1, t1)"
    and "transfer_writes s1 i2 r2 = Some (s2, t2)"
  shows "interleave [First, Second, First, Second] (s, received u1 i1 r1, received u2 i2 r2) =
     (s2, (received u1 i1 r1)\<lparr>if_progress := Responded (Inr t1)\<rparr>,
          (received u2 i2 r2)\<lparr>if_progress := Responded (Inr t2)\<rparr>)"
  using assms
  by (simp add: advance_Received advance_Verified received_fields)

text \<open>
  C4 (as amended). Two transfers out of the same source account to other accounts, each
  affordable alone and together exceeding the balance, both from owners of the account:
  \<^item> when one request ends before the other begins, they never both succeed: if the
    earlier one commits, the later one is answered with \<open>Insufficient funds\<close> and the
    source balance is the old balance less the earlier amount;
  \<^item> in each of the four schedules in which both requests are checked before either
    commits, neither is answered with \<open>Insufficient funds\<close>: each commits, unless the
    database refuses one of its writes (500), and when both commit the source balance
    is the old balance less both amounts, which is negative. The balance check is a
    separate read that takes no lock;
  \<^item> in every schedule no balance update is lost: the source balance is the old balance
    less the amounts of the transfers that have committed.
\<close>

theorem concurrent_transfers_same_source:
  assumes "transferSchema r1" and "transferSchema r2"
    and "tr_fromAccountId r1 = a" and "tr_fromAccountId r2 = a"
    and "tr_toAccountId r1 \<noteq> a" and "tr_toAccountId r2 \<noteq> a"
    and "(a, u1) \<in> account_ownership s" and "(a, u2) \<in> account_ownership s"
    and "account_balances s a = Some b"
    and "tr_amount r1 \<le> b" and "tr_amount r2 \<le> b" and "b < tr_amount r1 + tr_amount r2"
  shows "(case interleave [First, First, Second, Second]
                 (s, received u1 i1 r1, received u2 i2 r2) of
            (s', w1, w2) \<Rightarrow>
              \<not> (succeeded w1 \<and> succeeded w2) \<and>
              (succeeded w1 \<longrightarrow>
                 if_progress w2 = Responded (Inl InsufficientFunds) \<and>
                 account_balances s' a = Some (b - tr_amount r1))) \<and>
         (case interleave [Second, Second, First, First]
                 (s, received u1 i1 r1, received u2 i2 r2) of
            (s', w1, w2) \<Rightarrow>
              \<not> (succeeded w1 \<and> succeeded w2) \<and>
              (succeeded w2 \<longrightarrow>
                 if_progress w1 = Responded (Inl InsufficientFunds) \<and>
                 account_balances s' a = Some (b - tr_amount r2))) \<and>
         (\<forall>sch \<in> set checks_before_commits.
            case interleave sch (s, received u1 i1 r1, received u2 i2 r2) of
              (s', w1, w2) \<Rightarrow>
                (succeeded w1 \<or> if_progress w1 = Responded (Inl TransferFailed)) \<and>
                (succeeded w2 \<or> if_progress w2 = Responded (Inl TransferFailed)) \<and>
                (succeeded w1 \<and> succeeded w2 \<longrightarrow>
                   account_balances s' a = Some (b - tr_amount r1 - tr_amount r2))) \<and>
         (\<forall>sch. case interleave sch (s, received u1 i1 r1, received u2 i2 r2) of
            (s', w1, w2) \<Rightarrow>
              account_balances s' a = Some (b - committed_amount w1 - committed_amount w2))"
proof (intro conjI ballI allI)
  have c1: "transfer_checks s u1 r1 = None"
    using assms by (simp add: transfer_checks_eq)
  have c2: "transfer_checks s u2 r2 = None"
    using assms by (simp add: transfer_checks_eq)
  have lost: "account_balances (fst (interleave sch (s, received u1 i1 r1, received u2 i2 r2))) a =
      Some (b - committed_amount (fst (snd (interleave sch (s, received u1 i1 r1, received u2 i2 r2))))
              - committed_amount (snd (snd (interleave sch (s, received u1 i1 r1, received u2 i2 r2)))))"
    for sch
    using interleave_source_balance[of "received u1 i1 r1" a "received u2 i2 r2" s b sch] assms
    by (simp add: received_fields)
  show "case interleave [First, First, Second, Second]
                 (s, received u1 i1 r1, received u2 i2 r2) of
            (s', w1, w2) \<Rightarrow>
              \<not> (succeeded w1 \<and> succeeded w2) \<and>
              (succeeded w1 \<longrightarrow>
                 if_progress w2 = Responded (Inl InsufficientFunds) \<and>
                 account_balances s' a = Some (b - tr_amount r1))"
    by (rule one_after_the_other(1)[OF assms(2,3,4,5,8,9,12)])
  have "b < tr_amount r2 + tr_amount r1" using assms(12) by simp
  from one_after_the_other(2)[OF assms(1,4,3,6,7,9) this, where ua = u2 and ida = i2 and idb = i1]
  show "case interleave [Second, Second, First, First]
                 (s, received u1 i1 r1, received u2 i2 r2) of
            (s', w1, w2) \<Rightarrow>
              \<not> (succeeded w1 \<and> succeeded w2) \<and>
              (succeeded w2 \<longrightarrow>
                 if_progress w1 = Responded (Inl InsufficientFunds) \<and>
                 account_balances s' a = Some (b - tr_amount r2))"
    by (simp add: case_prod_beta)
  show "case interleave sch (s, received u1 i1 r1, received u2 i2 r2) of
      (s', w1, w2) \<Rightarrow>
        account_balances s' a = Some (b - committed_amount w1 - committed_amount w2)" for sch
    using lost[of sch] by (simp add: case_prod_beta)
  fix sch
  assume m: "sch \<in> set checks_before_commits"
  from racing_outcome[OF c1 c2 m, of i1 i2] lost[of sch]
  show "case interleave sch (s, received u1 i1 r1, received u2 i2 r2) of
      (s', w1, w2) \<Rightarrow>
        (succeeded w1 \<or> if_progress w1 = Responded (Inl TransferFailed)) \<and>
        (succeeded w2 \<or> if_progress w2 = Responded (Inl TransferFailed)) \<and>
        (succeeded w1 \<and> succeeded w2 \<longrightarrow>
           account_balances s' a = Some (b - tr_amount r1 - tr_amount r2))"
    by (auto simp: case_prod_beta committed_amount_def interleave_request received_fields)
qed

text \<open>
  Two transfers of \<open>600.00\<close> out of account \<open>1\<close>, which holds \<open>1000.00\<close>.
\<close>

lemma sample_first_commit:
  "transfer_writes sample_ledger sample_ids (sample_transfer 2 60000) =
     Some (transferred sample_ledger sample_ids (sample_transfer 2 60000), sample_result 2 60000)"
  using transfer_writes_accepted[of sample_ids sample_ledger "sample_transfer 2 60000" 100000]
  by (simp add: sample_fields sample_ids_fields sample_ranges sample_rows)

lemma sample_after_first:
  "account_balances (transferred sample_ledger sample_ids (sample_transfer 2 60000)) 1 = Some 40000"
  "balance_of (transferred sample_ledger sample_ids (sample_transfer 2 60000)) 3 = 0"
  "tx_id ` set (transactions (transferred sample_ledger sample_ids (sample_transfer 2 60000))) =
     {''e1'', ''d1'', ''c1''}"
  "account_ownership (transferred sample_ledger sample_ids (sample_transfer 2 60000)) =
     account_ownership sample_ledger"
  using transferred_source_row[of sample_ledger "sample_transfer 2 60000" 100000 sample_ids]
    transferred_balance_of[of sample_ledger "sample_transfer 2 60000" 100000 sample_ids 3]
  by (auto simp: sample_fields transferred_fields debit_row_fields credit_row_fields
      sample_ids_fields)

lemma sample_second_commit:
  "transfer_writes (transferred sample_ledger sample_ids (sample_transfer 2 60000)) other_ids
       (sample_transfer 3 60000) =
     Some (transferred (transferred sample_ledger sample_ids (sample_transfer 2 60000)) other_ids
             (sample_transfer 3 60000),
           transfer_rows other_ids (sample_transfer 3 60000))"
  by (rule transfer_writes_accepted[where x = 40000])
     (simp_all add: sample_after_first sample_fields sample_ids_fields sample_ranges)

lemma sample_second_refused:
  "transfer (transferred sample_ledger sample_ids (sample_transfer 2 60000)) 7 other_ids
       (sample_transfer 3 60000) =
     (transferred sample_ledger sample_ids (sample_transfer 2 60000), Inl InsufficientFunds)"
proof -
  have "transfer_checks (transferred sample_ledger sample_ids (sample_transfer 2 60000)) 7
      (sample_transfer 3 60000) = Some InsufficientFunds"
    by (simp add: transfer_checks_eq sample_checks sample_fields sample_ranges sample_after_first)
  then show ?thesis by (rule transfer_refused)
qed

lemma sample_serial:
  "interleave [First, First, Second, Second]
       (sample_ledger, received 7 sample_ids (sample_transfer 2 60000),
        received 7 other_ids (sample_transfer 3 60000)) =
     (transferred sample_ledger sample_ids (sample_transfer 2 60000),
      (received 7 sample_ids (sample_transfer 2 60000))
        \<lparr>if_progress := Responded (Inr (sample_result 2 60000))\<rparr>,
      (received 7 other_ids (sample_transfer 3 60000))
        \<lparr>if_progress := Responded (Inl InsufficientFunds)\<rparr>)"
proof -
  have p: "transfer_checks sample_ledger 7 (sample_transfer 2 60000) = None"
    by (simp add: sample_passes sample_ranges)
  have t: "transfer sample_ledger 7 sample_ids (sample_transfer 2 60000) =
      (transferred sample_ledger sample_ids (sample_transfer 2 60000), Inr (sample_result 2 60000))"
    by (rule transfer_passed[OF p sample_first_commit])
  show ?thesis
    using interleave_append[of "[First, First]" "[Second, Second]"]
    by (simp add: alone_is_transfer t sample_second_refused del: interleave.simps)
qed

lemma sample_race:
  "interleave [First, Second, First, Second]
       (sample_ledger, received 7 sample_ids (sample_transfer 2 60000),
        received 7 other_ids (sample_transfer 3 60000)) =
     (transferred (transferred sample_ledger sample_ids (sample_transfer 2 60000)) other_ids
        (sample_transfer 3 60000),
      (received 7 sample_ids (sample_transfer 2 60000))
        \<lparr>if_progress := Responded (Inr (sample_result 2 60000))\<rparr>,
      (received 7 other_ids (sample_transfer 3 60000))
        \<lparr>if_progress := Responded (Inr (transfer_rows other_ids (sample_transfer 3 60000)))\<rparr>)"
proof -
  have p: "transfer_checks sample_ledger 7 (sample_transfer 2 60000) = None"
    "transfer_checks sample_ledger 7 (sample_transfer 3 60000) = None"
    by (simp_all add: sample_passes sample_ranges)
  show ?thesis
    by (rule racing_schedule[OF p sample_first_commit sample_second_commit])
qed

theorem concurrent_transfers_same_source_witness:
  "transferSchema (sample_transfer 2 60000) \<and> transferSchema (sample_transfer 3 60000) \<and>
   (1, 7) \<in> account_ownership sample_ledger \<and>
   account_balances sample_ledger 1 = Some 100000 \<and>
   (case interleave [First, First, Second, Second]
           (sample_ledger, received 7 sample_ids (sample_transfer 2 60000),
            received 7 other_ids (sample_transfer 3 60000)) of
      (s', w1, w2) \<Rightarrow>
        succeeded w1 \<and> if_progress w2 = Responded (Inl InsufficientFunds) \<and>
        account_balances s' 1 = Some 40000) \<and>
   (case interleave [First, Second, First, Second]
           (sample_ledger, received 7 sample_ids (sample_transfer 2 60000),
            received 7 other_ids (sample_transfer 3 60000)) of
      (s', w1, w2) \<Rightarrow>
        succeeded w1 \<and> succeeded w2 \<and> account_balances s' 1 = Some (- 20000))"
proof -
  have v: "transferSchema (sample_transfer 2 60000)" "transferSchema (sample_transfer 3 60000)"
    by (simp_all add: sample_checks sample_ranges)
  have m: "[First, Second, First, Second] \<in> set checks_before_commits"
    by (simp add: checks_before_commits_def)
  note T = concurrent_transfers_same_source[OF v, of 1 7 sample_ledger 7 100000 sample_ids other_ids]
  have T': "(case interleave [First, First, Second, Second]
                 (sample_ledger, received 7 sample_ids (sample_transfer 2 60000),
                  received 7 other_ids (sample_transfer 3 60000)) of
            (s', w1, w2) \<Rightarrow>
              (succeeded w1 \<longrightarrow>
                 if_progress w2 = Responded (Inl InsufficientFunds) \<and>
                 account_balances s' 1 = Some (100000 - tr_amount (sample_transfer 2 60000)))) \<and>
         (case interleave [First, Second, First, Second]
                 (sample_ledger, received 7 sample_ids (sample_transfer 2 60000),
                  received 7 other_ids (sample_transfer 3 60000)) of
              (s', w1, w2) \<Rightarrow>
                (succeeded w1 \<and> succeeded w2 \<longrightarrow>
                   account_balances s' 1 =
                     Some (100000 - tr_amount (sample_transfer 2 60000)
                                  - tr_amount (sample_transfer 3 60000))))"
    using T m by (auto simp: sample_fields case_prod_beta simp del: interleave.simps)
  show ?thesis
    using v T' unfolding sample_serial sample_race
    by (simp add: succeeded_simps sample_fields)
qed

text \<open>
  Both transfers of \<open>600.00\<close> succeed when each is checked before the other commits,
  and the account with \<open>1000.00\<close> ends at \<open>-200.00\<close>.
\<close>

theorem concurrent_transfers_both_succeed_counterexample:
  "account_balances sample_ledger 1 = Some 100000 \<and>
   tr_amount (sample_transfer 2 60000) \<le> 100000 \<and> tr_amount (sample_transfer 3 60000) \<le> 100000 \<and>
   100000 < tr_amount (sample_transfer 2 60000) + tr_amount (sample_transfer 3 60000) \<and>
   succeeded (fst (snd (interleave [First, Second, First, Second]
           (sample_ledger, received 7 sample_ids (sample_transfer 2 60000),
            received 7 other_ids (sample_transfer 3 60000))))) \<and>
   succeeded (snd (snd (interleave [First, Second, First, Second]
           (sample_ledger, received 7 sample_ids (sample_transfer 2 60000),
            received 7 other_ids (sample_transfer 3 60000))))) \<and>
   account_balances (fst (interleave [First, Second, First, Second]
           (sample_ledger, received 7 sample_ids (sample_transfer 2 60000),
            received 7 other_ids (sample_transfer 3 60000)))) 1 = Some (- 20000)"
  using transferred_source_row[of "transferred sample_ledger sample_ids (sample_transfer 2 60000)"
      "sample_transfer 3 60000" 40000 other_ids]
  unfolding sample_race
  by (simp add: succeeded_simps sample_fields sample_after_first)

section \<open>The payment service\<close>

lemma detectFraud_riskScore:
  "riskScore (detectFraud s r now) =
     (if 1000000 < pr_amount r then 25 else 0) +
     (if 5 < recentPayments s (pr_fromAccountId r) now then 25 else 0)"
  by (simp add: detectFraud_def Let_def)

lemma detectFraud_requiresReview:
  "requiresReview (detectFraud s r now) = (50 < riskScore (detectFraud s r now))"
  by (simp add: detectFraud_def Let_def)

lemma detectFraud_not_flagged: "\<not> requiresReview (detectFraud s r now)"
  by (simp add: detectFraud_requiresReview detectFraud_riskScore)

lemma insert_payment_SomeD:
  "insert_payment d rows p = Some rows' \<Longrightarrow> rows' = rows @ [p]"
  by (simp add: insert_payment_def split: if_splits)

lemma create_payment_refused:
  "payment_checks s u r = Some e \<Longrightarrow> create_payment s u pid now r = (s, Inl e)"
  by (simp add: create_payment_def)

lemma create_payment_insert_refused:
  "payment_checks s u r = None \<Longrightarrow>
   insert_payment (database s) (payments s) (new_payment s pid now r) = None \<Longrightarrow>
   create_payment s u pid now r = (s, Inl PaymentCreationFailed)"
  by (simp add: create_payment_def Let_def)

lemma create_payment_accepted:
  assumes "payment_checks s u r = None"
    and "insert_payment (database s) (payments s) (new_payment s pid now r) = Some rows"
  shows "snd (create_payment s u pid now r) = Inr (new_payment s pid now r)"
    and "payments (fst (create_payment s u pid now r)) = payments s @ [new_payment s pid now r]"
    and "payment_processing (fst (create_payment s u pid now r)) =
           (if \<not> isScheduled r now \<and> \<not> requiresReview (detectFraud s r now) \<and> channel s
            then payment_processing s @ [Created pid u] else payment_processing s)"
    and "channel (fst (create_payment s u pid now r)) = channel s"
    and "database (fst (create_payment s u pid now r)) = database s"
  using assms insert_payment_SomeD[OF assms(2)]
  by (simp_all add: create_payment_def Let_def new_payment_def)

lemma create_payment_InrD:
  assumes "create_payment s u pid now r = (s', Inr p)"
  shows "payment_checks s u r = None"
    and "\<exists>rows. insert_payment (database s) (payments s) (new_payment s pid now r) = Some rows"
proof -
  show c: "payment_checks s u r = None"
    using assms by (cases "payment_checks s u r") (simp_all add: create_payment_refused)
  show "\<exists>rows. insert_payment (database s) (payments s) (new_payment s pid now r) = Some rows"
    using assms create_payment_insert_refused[OF c, of pid now]
    by (cases "insert_payment (database s) (payments s) (new_payment s pid now r)") simp_all
qed

lemma create_payment_result:
  assumes "create_payment s u pid now r = (s', Inr p)"
  shows "p = new_payment s pid now r"
    and "payments s' = payments s @ [p]"
    and "payment_processing s' =
           (if \<not> isScheduled r now \<and> \<not> requiresReview (detectFraud s r now) \<and> channel s
            then payment_processing s @ [Created pid u] else payment_processing s)"
proof -
  note c = create_payment_InrD(1)[OF assms]
  from create_payment_InrD(2)[OF assms] obtain rows where
    i: "insert_payment (database s) (payments s) (new_payment s pid now r) = Some rows" by blast
  note a = create_payment_accepted[OF c i]
  have s': "s' = fst (create_payment s u pid now r)" and p: "Inr p = snd (create_payment s u pid now r)"
    using assms by simp_all
  show "p = new_payment s pid now r" using p a(1) by simp
  then show "payments s' = payments s @ [p]" unfolding s' using a(2) by simp
  show "payment_processing s' =
           (if \<not> isScheduled r now \<and> \<not> requiresReview (detectFraud s r now) \<and> channel s
            then payment_processing s @ [Created pid u] else payment_processing s)"
    unfolding s' by (rule a(3))
qed

lemma new_payment_fields:
  "p_id (new_payment s pid now r) = pid"
  "p_from_account_id (new_payment s pid now r) = pr_fromAccountId r"
  "p_to_account_id (new_payment s pid now r) = pr_toAccountId r"
  "p_amount (new_payment s pid now r) = pr_amount r"
  "p_payment_type (new_payment s pid now r) = pr_paymentType r"
  "p_status (new_payment s pid now r) =
     initial_status (isScheduled r now) (requiresReview (detectFraud s r now))"
  "p_scheduled_at (new_payment s pid now r) = pr_scheduledAt r"
  "p_risk_score (new_payment s pid now r) = riskScore (detectFraud s r now)"
  "p_created_at (new_payment s pid now r) = now"
  "p_description (new_payment s pid now r) = pr_description r"
  "p_currency (new_payment s pid now r) = (case pr_currency r of None \<Rightarrow> ''USD'' | Some c \<Rightarrow> c)"
  by (simp_all add: new_payment_def)

lemma on_init_sql:
  assumes "database s = init_sql"
  shows "create_payment s u pid now r =
           (s, Inl (if paymentSchema r then PaymentCreationFailed else ValidationFailed))"
    and "cancel_payment s u pid now = (s, Inl FailedToCancelPayment)"
  using assms
  by (simp_all add: create_payment_def payment_checks_def cancel_payment_def init_sql_def)

lemma sample_request_fields:
  "pr_fromAccountId (sample_request a d) = 1"
  "pr_toAccountId (sample_request a d) = Some 2"
  "pr_amount (sample_request a d) = a"
  "pr_paymentType (sample_request a d) = type_transfer"
  "pr_scheduledAt (sample_request a d) = d"
  "pr_description (sample_request a d) = ''rent''"
  "pr_currency (sample_request a d) = None"
  by (simp_all add: sample_request_def)

lemma sample_service_fields:
  "database (sample_service c rows) = init_sql"
  "payments (sample_service c rows) = rows"
  "channel (sample_service c rows) = c"
  "payment_processing (sample_service c rows) = []"
  "ps_account_ownership (sample_service c rows) = {(1, 7)}"
  "database (declared_service c rows) = handlers_sql"
  "payments (declared_service c rows) = rows"
  "channel (declared_service c rows) = c"
  "payment_processing (declared_service c rows) = []"
  "ps_account_ownership (declared_service c rows) = {(1, 7)}"
  by (simp_all add: sample_service_def declared_service_def)

lemma sample_payment_fields:
  "p_id (sample_payment i st d) = i"
  "p_status (sample_payment i st d) = st"
  "p_scheduled_at (sample_payment i st d) = d"
  "p_from_account_id (sample_payment i st d) = 1"
  "p_created_at (sample_payment i st d) = 0"
  by (simp_all add: sample_payment_def)

lemma sample_request_valid:
  "0 < a \<Longrightarrow> safe_amount a \<Longrightarrow> paymentSchema (sample_request a d)"
  by (simp add: paymentSchema_def sample_request_def safe_integer_def)

lemma sample_request_passes:
  "0 < a \<Longrightarrow> safe_amount a \<Longrightarrow>
     payment_checks (declared_service c rows) 7 (sample_request a d) = None"
  by (simp add: payment_checks_def sample_request_valid sample_service_fields
      sample_request_fields select_ownership_def handlers_sql_def)

lemma sample_insert:
  "numeric_15_2 a \<Longrightarrow> pid \<notin> p_id ` set rows \<Longrightarrow>
   insert_payment handlers_sql rows (new_payment s pid now (sample_request a d)) =
     Some (rows @ [new_payment s pid now (sample_request a d)])"
  by (simp add: insert_payment_def handlers_sql_def new_payment_fields sample_request_fields
      int4_def no_nul_def)

text \<open>
  C7. The risk score is the sum of two fixed weights: 25 when the amount exceeds
  \<open>10000.00\<close>, and 25 when more than five payments of the source account were created
  within the last hour. It lies between 0 and 100, and \<open>requiresReview\<close> holds exactly
  when the score is greater than 50. \<open>detectFraud\<close> is a function of the payments table,
  the request and the reading of the clock, so equal inputs give equal scores.
\<close>

theorem detectFraud_score:
  "riskScore (detectFraud s paymentData now) =
     (if 1000000 < pr_amount paymentData then 25 else 0) +
     (if 5 < recentPayments s (pr_fromAccountId paymentData) now then 25 else 0) \<and>
   recentPayments s (pr_fromAccountId paymentData) now =
     int (length (filter (\<lambda>p. p_from_account_id p = pr_fromAccountId paymentData \<and>
                              now - 3600000 < p_created_at p) (payments s))) \<and>
   0 \<le> riskScore (detectFraud s paymentData now) \<and>
   riskScore (detectFraud s paymentData now) \<le> 100 \<and>
   requiresReview (detectFraud s paymentData now) =
     (50 < riskScore (detectFraud s paymentData now))"
  by (simp add: detectFraud_riskScore detectFraud_requiresReview recentPayments_def one_hour_def)

text \<open>
  C10. The risk score never exceeds 50, \<open>requiresReview\<close> is never set, and no payment
  is created with the status \<open>pending_review\<close>.
\<close>

theorem pending_review_unreachable:
  "riskScore (detectFraud s paymentData now) \<le> 50 \<and>
   \<not> requiresReview (detectFraud s paymentData now) \<and>
   (\<forall>s' payment. create_payment s userId paymentId now paymentData = (s', Inr payment) \<longrightarrow>
      p_status payment \<noteq> pending_review)"
proof (intro conjI allI impI)
  show "riskScore (detectFraud s paymentData now) \<le> 50"
    by (simp add: detectFraud_riskScore)
  show "\<not> requiresReview (detectFraud s paymentData now)"
    by (rule detectFraud_not_flagged)
  fix s' payment
  assume "create_payment s userId paymentId now paymentData = (s', Inr payment)"
  from create_payment_result(1)[OF this]
  show "p_status payment \<noteq> pending_review"
    by (simp add: new_payment_fields initial_status_def detectFraud_not_flagged)
qed

text \<open>
  A payment of \<open>20000.00\<close> from an account with six payments in the last hour scores
  exactly 50 and is created as \<open>processing\<close>.
\<close>

lemma busy_fields:
  "database busy_service = handlers_sql"
  "channel busy_service"
  "payment_processing busy_service = []"
  "p_id ` set (payments busy_service) = {''a'', ''b'', ''c'', ''d'', ''e'', ''f''}"
  "recentPayments busy_service 1 1000 = 6"
  by (simp_all add: busy_service_def sample_service_fields sample_payment_def recentPayments_def
      one_hour_def)

lemma busy_new_payment:
  "new_payment busy_service ''p1'' 1000 (sample_request 2000000 None) =
     (sample_payment ''p1'' processing None)
       \<lparr>p_amount := 2000000, p_risk_score := 50, p_created_at := 1000\<rparr>"
  by (simp add: new_payment_def detectFraud_not_flagged detectFraud_riskScore busy_fields
      sample_request_def sample_payment_def initial_status_def isScheduled_def)

theorem pending_review_unreachable_witness:
  "riskScore (detectFraud busy_service (sample_request 2000000 None) 1000) = 50 \<and>
   \<not> requiresReview (detectFraud busy_service (sample_request 2000000 None) 1000) \<and>
   create_payment busy_service 7 ''p1'' 1000 (sample_request 2000000 None) =
     (fst (create_payment busy_service 7 ''p1'' 1000 (sample_request 2000000 None)),
      Inr ((sample_payment ''p1'' processing None)
             \<lparr>p_amount := 2000000, p_risk_score := 50, p_created_at := 1000\<rparr>)) \<and>
   p_status ((sample_payment ''p1'' processing None)
             \<lparr>p_amount := 2000000, p_risk_score := 50, p_created_at := 1000\<rparr>) \<noteq> pending_review"
proof -
  have c: "payment_checks busy_service 7 (sample_request 2000000 None) = None"
    unfolding busy_service_def by (simp add: sample_request_passes safe_amount_def)
  have i: "insert_payment (database busy_service) (payments busy_service)
      (new_payment busy_service ''p1'' 1000 (sample_request 2000000 None)) =
      Some (payments busy_service @ [new_payment busy_service ''p1'' 1000 (sample_request 2000000 None)])"
    unfolding busy_fields(1) by (rule sample_insert) (simp_all add: busy_fields numeric_15_2_def)
  have f: "riskScore (detectFraud busy_service (sample_request 2000000 None) 1000) = 50"
    by (simp add: detectFraud_riskScore sample_request_fields busy_fields)
  have h: "create_payment busy_service 7 ''p1'' 1000 (sample_request 2000000 None) =
     (fst (create_payment busy_service 7 ''p1'' 1000 (sample_request 2000000 None)),
      Inr ((sample_payment ''p1'' processing None)
             \<lparr>p_amount := 2000000, p_risk_score := 50, p_created_at := 1000\<rparr>))"
    unfolding prod_eq_iff fst_conv snd_conv create_payment_accepted(1)[OF c i] busy_new_payment
    by simp
  from pending_review_unreachable[of busy_service "sample_request 2000000 None" 1000 7 "''p1''"]
  show ?thesis using h f by blast
qed






lemma cancel_payment_eq:
  assumes "has_account_ownership (database s)" and "has_updated_at (database s)" and "int4 u"
  shows "cancel_payment s u pid now =
     (s\<lparr>payments := map (\<lambda>p. if cancel_matches s u pid p
                               then p\<lparr>p_status := cancelled, p_updated_at := Some now\<rparr> else p)
                       (payments s)\<rparr>,
      if filter (cancel_matches s u pid) (payments s) = []
      then Inl PaymentNotFoundOrCannotBeCancelled else Inr ())"
  using assms by (simp add: cancel_payment_def Let_def)

lemma same_id_same_row:
  assumes "distinct (map p_id rows)" and "p \<in> set rows" and "q \<in> set rows" and "p_id q = p_id p"
  shows "q = p"
  using assms by (meson distinct_map inj_onD)

text \<open>
  What the cancellation handler does on a database that declares \<open>account_ownership\<close>
  and \<open>payments.updated_at\<close>: a \<open>scheduled\<close> or \<open>pending_review\<close> payment cancelled by an
  owner of its source account becomes \<open>cancelled\<close> and nothing else changes; any other
  request is answered 404 and changes nothing.
\<close>

lemma cancel_payment_where_declared:
  assumes "has_account_ownership (database s)" and "has_updated_at (database s)"
    and "int4 userId"
    and "distinct (map p_id (payments s))"
    and "p \<in> set (payments s)"
    and "p_id p = paymentId"
  shows "if (p_status p = scheduled \<or> p_status p = pending_review) \<and>
            (p_from_account_id p, userId) \<in> ps_account_ownership s
         then cancel_payment s userId paymentId now =
                (s\<lparr>payments :=
                     map (\<lambda>q. if p_id q = paymentId
                              then q\<lparr>p_status := cancelled, p_updated_at := Some now\<rparr> else q)
                       (payments s)\<rparr>,
                 Inr ())
         else cancel_payment s userId paymentId now =
                (s, Inl PaymentNotFoundOrCannotBeCancelled)"
proof (cases "(p_status p = scheduled \<or> p_status p = pending_review) \<and>
            (p_from_account_id p, userId) \<in> ps_account_ownership s")
  case True
  then have mp: "cancel_matches s userId paymentId p"
    using assms(6) by (simp add: cancel_matches_def)
  have m: "cancel_matches s userId paymentId q \<longleftrightarrow> p_id q = paymentId"
    if "q \<in> set (payments s)" for q
  proof
    assume "cancel_matches s userId paymentId q"
    then show "p_id q = paymentId" by (simp add: cancel_matches_def)
  next
    assume "p_id q = paymentId"
    then have "q = p" using same_id_same_row[OF assms(4,5) that] assms(6) by simp
    then show "cancel_matches s userId paymentId q" using mp by simp
  qed
  have ne: "filter (cancel_matches s userId paymentId) (payments s) \<noteq> []"
    using mp assms(5) by (auto simp: filter_empty_conv)
  have "map (\<lambda>q. if cancel_matches s userId paymentId q
                  then q\<lparr>p_status := cancelled, p_updated_at := Some now\<rparr> else q) (payments s) =
        map (\<lambda>q. if p_id q = paymentId
                  then q\<lparr>p_status := cancelled, p_updated_at := Some now\<rparr> else q) (payments s)"
    by (rule map_cong) (simp_all add: m)
  then show ?thesis using True ne by (simp add: cancel_payment_eq[OF assms(1,2,3)])
next
  case False
  have m: "\<not> cancel_matches s userId paymentId q" if "q \<in> set (payments s)" for q
  proof
    assume c: "cancel_matches s userId paymentId q"
    then have "p_id q = p_id p" using assms(6) by (simp add: cancel_matches_def)
    then have "q = p" by (rule same_id_same_row[OF assms(4,5) that])
    then show False using c False by (simp add: cancel_matches_def)
  qed
  have e: "filter (cancel_matches s userId paymentId) (payments s) = []"
    using m by (simp add: filter_empty_conv)
  have "map (\<lambda>q. if cancel_matches s userId paymentId q
                  then q\<lparr>p_status := cancelled, p_updated_at := Some now\<rparr> else q) (payments s) =
        payments s"
    by (rule map_idI) (simp add: m)
  then show ?thesis using False e by (simp add: cancel_payment_eq[OF assms(1,2,3)])
qed

text \<open>
  C6. The claim is what the handler's \<open>UPDATE\<close> is written to do, as
  \<open>cancel_payment_where_declared\<close> shows. On the database that \<open>init.sql\<close> creates the
  statement cannot run: every cancellation request is answered 500
  \<open>Failed to cancel payment\<close> and changes nothing, whatever the status of the payment.
\<close>

theorem cancel_payment_on_init_sql:
  "database s = init_sql \<Longrightarrow>
     cancel_payment s userId paymentId now = (s, Inl FailedToCancelPayment)"
  by (rule on_init_sql(2))

text \<open>
  On the database of \<open>init.sql\<close> the owner's request to cancel the scheduled payment
  \<open>p1\<close> is answered 500, as is the request to cancel the processing payment \<open>p2\<close>.
  Where the relation and the column are declared, \<open>p1\<close> is cancelled and \<open>p2\<close> is not.
\<close>

lemma two_payments_fields:
  "database (two_payments d) = d"
  "payments (two_payments d) =
     [sample_payment ''p1'' scheduled (Some 5000), sample_payment ''p2'' processing None]"
  "ps_account_ownership (two_payments d) = {(1, 7)}"
  by (simp_all add: two_payments_def sample_service_def)

theorem cancel_payment_on_init_sql_witness:
  "database (two_payments init_sql) = init_sql \<and>
   sample_payment ''p1'' scheduled (Some 5000) \<in> set (payments (two_payments init_sql)) \<and>
   (p_from_account_id (sample_payment ''p1'' scheduled (Some 5000)), 7)
     \<in> ps_account_ownership (two_payments init_sql) \<and>
   cancel_payment (two_payments init_sql) 7 ''p1'' 1000 =
     (two_payments init_sql, Inl FailedToCancelPayment) \<and>
   sample_payment ''p2'' processing None \<in> set (payments (two_payments init_sql)) \<and>
   cancel_payment (two_payments init_sql) 7 ''p2'' 1000 =
     (two_payments init_sql, Inl FailedToCancelPayment)"
  using cancel_payment_on_init_sql[OF two_payments_fields(1)[of init_sql], of 7 "''p1''" 1000]
    cancel_payment_on_init_sql[OF two_payments_fields(1)[of init_sql], of 7 "''p2''" 1000]
  by (simp add: two_payments_fields sample_payment_fields)

lemma sample_cancellation:
  "cancel_payment (two_payments handlers_sql) 7 ''p1'' 1000 =
     ((two_payments handlers_sql)\<lparr>payments :=
        [(sample_payment ''p1'' cancelled (Some 5000))\<lparr>p_updated_at := Some 1000\<rparr>,
         sample_payment ''p2'' processing None]\<rparr>,
      Inr ())"
  "cancel_payment (two_payments handlers_sql) 7 ''p2'' 1000 =
     (two_payments handlers_sql, Inl PaymentNotFoundOrCannotBeCancelled)"
proof -
  have d: "has_account_ownership (database (two_payments handlers_sql))"
    "has_updated_at (database (two_payments handlers_sql))" "int4 7"
    by (simp_all add: two_payments_fields handlers_sql_def int4_def)
  have k: "distinct (map p_id (payments (two_payments handlers_sql)))"
    by (simp add: two_payments_fields sample_payment_fields)
  have m1: "sample_payment ''p1'' scheduled (Some 5000) \<in> set (payments (two_payments handlers_sql))"
    and m2: "sample_payment ''p2'' processing None \<in> set (payments (two_payments handlers_sql))"
    by (simp_all add: two_payments_fields)
  have i1: "p_id (sample_payment ''p1'' scheduled (Some 5000)) = ''p1''"
    and i2: "p_id (sample_payment ''p2'' processing None) = ''p2''"
    by (simp_all add: sample_payment_fields)
  have u: "(sample_payment ''p1'' scheduled (Some 5000))\<lparr>p_status := cancelled, p_updated_at := Some 1000\<rparr> =
      (sample_payment ''p1'' cancelled (Some 5000))\<lparr>p_updated_at := Some 1000\<rparr>"
    by (simp add: sample_payment_def)
  from cancel_payment_where_declared[OF d k m1 i1, of 1000]
  show "cancel_payment (two_payments handlers_sql) 7 ''p1'' 1000 =
     ((two_payments handlers_sql)\<lparr>payments :=
        [(sample_payment ''p1'' cancelled (Some 5000))\<lparr>p_updated_at := Some 1000\<rparr>,
         sample_payment ''p2'' processing None]\<rparr>,
      Inr ())"
    by (simp add: two_payments_fields sample_payment_fields u)
  from cancel_payment_where_declared[OF d k m2 i2, of 1000]
  show "cancel_payment (two_payments handlers_sql) 7 ''p2'' 1000 =
     (two_payments handlers_sql, Inl PaymentNotFoundOrCannotBeCancelled)"
    by (simp add: sample_payment_fields)
qed




end
